theory Spec2Isabelle
  imports Main
begin

section \<open>Python strings\<close>

text \<open>
  A Python \<open>str\<close> is modelled as a \<open>string\<close> whose characters are the code points
  below 256.  On that range \<open>str.lower\<close> maps \<open>A-Z\<close> and the upper-case letters
  \<open>0xC0-0xDE\<close> (without the multiplication sign \<open>0xD7\<close>) to the letter 32 places
  further on and leaves every other character alone (bit 5 of such a letter's code is
  clear, and \<open>add_32\<close> sets it); \<open>str.isspace\<close>, which also is what
  \<open>\s\<close> means in a pattern and what \<open>str.strip()\<close> removes, holds for the twelve
  characters of \<open>py_whitespace\<close>; \<open>\d\<close> matches the ten ASCII digits only.
\<close>

definition add_32 :: "char \<Rightarrow> char" where
  "add_32 c = (case c of Char b0 b1 b2 b3 b4 b5 b6 b7 \<Rightarrow> Char b0 b1 b2 b3 b4 True b6 b7)"

definition sub_32 :: "char \<Rightarrow> char" where
  "sub_32 c = (case c of Char b0 b1 b2 b3 b4 b5 b6 b7 \<Rightarrow> Char b0 b1 b2 b3 b4 False b6 b7)"

definition py_lower_char :: "char \<Rightarrow> char" where
  "py_lower_char c =
     (let n = (of_char c :: nat)
      in if (65 \<le> n \<and> n \<le> 90) \<or> (192 \<le> n \<and> n \<le> 222 \<and> n \<noteq> 215)
         then add_32 c else c)"

definition py_lower :: "string \<Rightarrow> string" where
  "py_lower s = map py_lower_char s"

definition py_whitespace :: string where
  "py_whitespace = [CHR 0x09, CHR 0x0A, CHR 0x0B, CHR 0x0C, CHR 0x0D,
                    CHR 0x1C, CHR 0x1D, CHR 0x1E, CHR 0x1F, CHR 0x20, CHR 0x85, CHR 0xA0]"

definition digits :: string where
  "digits = ''0123456789''"

definition py_strip_chars :: "string \<Rightarrow> string \<Rightarrow> string" where
  "py_strip_chars cs s =
     rev (dropWhile (\<lambda>c. c \<in> set cs) (rev (dropWhile (\<lambda>c. c \<in> set cs) s)))"

definition py_strip :: "string \<Rightarrow> string" where
  "py_strip s = py_strip_chars py_whitespace s"

section \<open>Regular expressions\<close>

text \<open>
  Python's \<open>re\<close> on the patterns of this program.  A pattern is a list of atoms:
  \<open>Lit ws\<close> is an alternation of literal words, \<open>(?:a|b)\<close>, a single word being
  \<open>Lit [w]\<close>; \<open>One cs\<close> is one character of a set; \<open>Rep n cs\<close> is a greedy
  repetition of a set with at least \<open>n\<close> characters, so \<open>*\<close> is \<open>Rep 0\<close> and
  \<open>+\<close> is \<open>Rep 1\<close>; \<open>Grp n cs\<close> is such a repetition in a capturing group;
  \<open>Bol\<close> and \<open>Eol\<close> are \<open>^\<close> and \<open>$\<close>.  A set is \<open>[...]\<close>, \<open>[^...]\<close> or
  the point, which matches every character but the newline.

  \<open>match_here\<close> is the backtracking matcher at one position: it tries the words of an
  alternation in their order and the lengths of a repetition from the longest down, and
  the first way to match the whole pattern is the match.  Its argument \<open>prev\<close> is the
  character before the position, \<open>None\<close> at the start of the text; \<open>^\<close> reads it.
  \<open>IGNORECASE\<close> acts on literal words only: no pattern of this program has a set under
  that flag.  No pattern of this program matches the empty text; after an empty match the
  scans of \<open>finditer\<close> and \<open>sub\<close> below move on by one character.
\<close>

datatype cset = In "char list" | NotIn "char list" | Dot

datatype atom = Lit "string list" | One cset | Rep nat cset | Grp nat cset | Bol | Eol

record re_flags =
  ignorecase :: bool
  multiline :: bool

definition no_flags :: re_flags where
  "no_flags = \<lparr>ignorecase = False, multiline = False\<rparr>"

definition IGNORECASE :: re_flags where
  "IGNORECASE = \<lparr>ignorecase = True, multiline = False\<rparr>"

definition MULTILINE :: re_flags where
  "MULTILINE = \<lparr>ignorecase = False, multiline = True\<rparr>"

fun cs_match :: "cset \<Rightarrow> char \<Rightarrow> bool" where
  "cs_match (In cs) c = (c \<in> set cs)"
| "cs_match (NotIn cs) c = (c \<notin> set cs)"
| "cs_match Dot c = (c \<noteq> CHR 0x0A)"

fun lit_match :: "bool \<Rightarrow> string \<Rightarrow> string \<Rightarrow> bool" where
  "lit_match ic [] s = True"
| "lit_match ic (x # l) [] = False"
| "lit_match ic (x # l) (c # s) =
     (if (if ic then py_lower_char c = py_lower_char x else c = x)
      then lit_match ic l s else False)"

definition adv :: "char option \<Rightarrow> string \<Rightarrow> nat \<Rightarrow> char option" where
  "adv prev s k = (if k = 0 then prev else Some (s ! (k - 1)))"

definition at_bol :: "re_flags \<Rightarrow> char option \<Rightarrow> bool" where
  "at_bol fl prev = (prev = None \<or> (multiline fl \<and> prev = Some (CHR 0x0A)))"

definition at_eol :: "re_flags \<Rightarrow> string \<Rightarrow> bool" where
  "at_eol fl s = (s = [] \<or> (if multiline fl then hd s = CHR 0x0A else s = [CHR 0x0A]))"

fun first_some :: "('a \<Rightarrow> 'b option) \<Rightarrow> 'a list \<Rightarrow> 'b option" where
  "first_some f [] = None"
| "first_some f (x # xs) = (case f x of Some r \<Rightarrow> Some r | None \<Rightarrow> first_some f xs)"

lemma first_some_cong [fundef_cong]:
  "xs = ys \<Longrightarrow> (\<And>x. x \<in> set ys \<Longrightarrow> f x = g x) \<Longrightarrow> first_some f xs = first_some g ys"
  by (induction ys arbitrary: xs) (auto split: option.splits)

fun countdown :: "nat \<Rightarrow> nat \<Rightarrow> nat list" where
  "countdown 0 lo = (if lo = 0 then [0] else [])"
| "countdown (Suc k) lo = (if Suc k < lo then [] else Suc k # countdown k lo)"

type_synonym re_match = "string list \<times> string"

fun match_here :: "re_flags \<Rightarrow> atom list \<Rightarrow> char option \<Rightarrow> string \<Rightarrow> re_match option" where
  "match_here fl [] prev s = Some ([], s)"
| "match_here fl (Lit alts # as) prev s =
     first_some (\<lambda>l. if lit_match (ignorecase fl) l s
                      then match_here fl as (adv prev s (length l)) (drop (length l) s)
                      else None) alts"
| "match_here fl (One cs # as) prev s =
     (case s of [] \<Rightarrow> None
      | c # s' \<Rightarrow> if cs_match cs c then match_here fl as (Some c) s' else None)"
| "match_here fl (Rep n cs # as) prev s =
     first_some (\<lambda>k. match_here fl as (adv prev s k) (drop k s))
       (countdown (length (takeWhile (cs_match cs) s)) n)"
| "match_here fl (Grp n cs # as) prev s =
     first_some (\<lambda>k. case match_here fl as (adv prev s k) (drop k s) of
                        None \<Rightarrow> None
                      | Some (caps, rest) \<Rightarrow> Some (take k s # caps, rest))
       (countdown (length (takeWhile (cs_match cs) s)) n)"
| "match_here fl (Bol # as) prev s = (if at_bol fl prev then match_here fl as prev s else None)"
| "match_here fl (Eol # as) prev s = (if at_eol fl s then match_here fl as prev s else None)"

fun search_from :: "re_flags \<Rightarrow> atom list \<Rightarrow> char option \<Rightarrow> string \<Rightarrow> re_match option" where
  "search_from fl p prev [] = match_here fl p prev []"
| "search_from fl p prev (c # s) =
     (case match_here fl p prev (c # s) of
        Some r \<Rightarrow> Some r
      | None \<Rightarrow> search_from fl p (Some c) s)"

definition re_search :: "re_flags \<Rightarrow> atom list \<Rightarrow> string \<Rightarrow> re_match option" where
  "re_search fl p s = search_from fl p None s"

function finditer_from :: "re_flags \<Rightarrow> atom list \<Rightarrow> char option \<Rightarrow> string \<Rightarrow> re_match list" where
  "finditer_from fl p prev s =
     (case match_here fl p prev s of
        Some (caps, rest) \<Rightarrow>
          if length rest < length s
          then (caps, rest) # finditer_from fl p (adv prev s (length s - length rest)) rest
          else (case s of
                  [] \<Rightarrow> [(caps, rest)]
                | c # s' \<Rightarrow> (caps, rest) # finditer_from fl p (Some c) s')
      | None \<Rightarrow> (case s of [] \<Rightarrow> [] | c # s' \<Rightarrow> finditer_from fl p (Some c) s'))"
  by pat_completeness auto
termination
  by (relation "measure (\<lambda>(fl, p, prev, s). length s)") auto

declare finditer_from.simps [simp del]

definition re_finditer :: "re_flags \<Rightarrow> atom list \<Rightarrow> string \<Rightarrow> re_match list" where
  "re_finditer fl p s = finditer_from fl p None s"

function sub_from :: "re_flags \<Rightarrow> atom list \<Rightarrow> string \<Rightarrow> char option \<Rightarrow> string \<Rightarrow> string" where
  "sub_from fl p repl prev s =
     (case match_here fl p prev s of
        Some (caps, rest) \<Rightarrow>
          if length rest < length s
          then repl @ sub_from fl p repl (adv prev s (length s - length rest)) rest
          else (case s of [] \<Rightarrow> repl | c # s' \<Rightarrow> repl @ c # sub_from fl p repl (Some c) s')
      | None \<Rightarrow> (case s of [] \<Rightarrow> [] | c # s' \<Rightarrow> c # sub_from fl p repl (Some c) s'))"
  by pat_completeness auto
termination
  by (relation "measure (\<lambda>(fl, p, repl, prev, s). length s)") auto

declare sub_from.simps [simp del]

definition re_sub :: "re_flags \<Rightarrow> atom list \<Rightarrow> string \<Rightarrow> string \<Rightarrow> string" where
  "re_sub fl p repl s = sub_from fl p repl None s"

text \<open>
  A successful match is the list of its groups' texts, in the order of the groups in the
  pattern, and the text after the match; \<open>match_group m i\<close> is \<open>m.group(i)\<close> for
  \<open>i \<ge> 1\<close>.
\<close>

definition match_group :: "re_match \<Rightarrow> nat \<Rightarrow> string" where
  "match_group m i = fst m ! (i - 1)"

fun group_count :: "atom list \<Rightarrow> nat" where
  "group_count [] = 0"
| "group_count (Grp n cs # as) = Suc (group_count as)"
| "group_count (a # as) = group_count as"

section \<open>More of Python's built-in functions\<close>

definition py_in :: "string \<Rightarrow> string \<Rightarrow> bool" where
  "py_in sub s = (\<exists>k \<in> set [0..<Suc (length s)]. take (length sub) (drop k s) = sub)"

fun py_join :: "string \<Rightarrow> string list \<Rightarrow> string" where
  "py_join sep [] = []"
| "py_join sep [x] = x"
| "py_join sep (x # y # xs) = x @ sep @ py_join sep (y # xs)"

function py_replace :: "string \<Rightarrow> string \<Rightarrow> string \<Rightarrow> string" where
  "py_replace old new s =
     (case s of
        [] \<Rightarrow> (if old = [] then new else [])
      | c # s' \<Rightarrow>
          if old = [] then new @ c # py_replace old new s'
          else if take (length old) s = old then new @ py_replace old new (drop (length old) s)
          else c # py_replace old new s')"
  by pat_completeness auto
termination
  by (relation "measure (\<lambda>(old, new, s). length s)") auto

declare py_replace.simps [simp del]

definition digit_value :: "char \<Rightarrow> int" where
  "digit_value c = int (length (takeWhile (\<lambda>d. d \<noteq> c) digits))"

definition py_int :: "string \<Rightarrow> int" where
  "py_int s = foldl (\<lambda>a c. 10 * a + digit_value c) 0 s"

datatype error = ValueError

datatype pyval = PyNone | PyStr string | PyInt int | PyFloat string

text \<open>
  \<open>PyFloat s\<close> stands for the binary64 number that \<open>float(s)\<close> returns; the rounding
  of the decimal text \<open>s\<close> is not computed.  \<open>py_int\<close> and \<open>py_float\<close> are applied to
  text matched by \<open>\d+\<close> and \<open>[\d.]+\<close> only: \<open>int\<close> accepts every such text (the
  limit that an interpreter may set on the number of digits is left out), \<open>float\<close>
  raises \<open>ValueError\<close> unless the text has a digit and at most one point.
\<close>

definition py_float :: "string \<Rightarrow> error + pyval" where
  "py_float s =
     (if set s \<subseteq> set (digits @ ''.'') \<and> (\<exists>c \<in> set s. c \<in> set digits)
         \<and> length (filter (\<lambda>c. c = CHR ''.'') s) \<le> 1
      then Inr (PyFloat s) else Inl ValueError)"

fun ascii_title_from :: "bool \<Rightarrow> string \<Rightarrow> string" where
  "ascii_title_from cased [] = []"
| "ascii_title_from cased (c # s) =
     (let n = (of_char c :: nat)
      in if 97 \<le> n \<and> n \<le> 122
         then (if cased then c else sub_32 c) # ascii_title_from True s
         else if 65 \<le> n \<and> n \<le> 90
         then (if cased then add_32 c else c) # ascii_title_from True s
         else c # ascii_title_from False s)"

text \<open>
  \<open>str.title\<close> on text whose letters are ASCII.  The parser takes the title-casing
  function as an argument \<open>tc\<close>, so that what is proved of it holds for \<open>str.title\<close>
  on every text; \<open>ascii_title\<close> stands in for it where a file name is given.
\<close>

definition ascii_title :: "string \<Rightarrow> string" where
  "ascii_title s = ascii_title_from False s"

section \<open>The schema: \<open>core/notebook_parser.py\<close>\<close>

text \<open>
  The enumerations and dataclasses.  A name stands for one constant here, so the members
  of \<open>OutputType\<close> are written \<open>OUT_...\<close>, the fields \<open>name\<close> and
  \<open>description\<close> of \<open>Output\<close> are \<open>output_name\<close> and \<open>output_description\<close>, and
  the field \<open>description\<close> of \<open>NotebookAnalysis\<close> is \<open>analysis_description\<close>.  A
  notebook is the JSON object read from the file: its \<open>cells\<close> entry may be missing, and
  a cell may lack its \<open>cell_type\<close> and its \<open>source\<close>, which is a text or a list of
  lines.
\<close>

datatype ParameterType =
  TEXT | TEXTAREA | NUMBER | SLIDER | CHECKBOX | DROPDOWN | FILE | IMAGE | COLOR

datatype OutputType = OUT_IMAGE | OUT_TEXT | OUT_FILE | OUT_AUDIO | OUT_VIDEO

record Parameter =
  name :: string
  param_type :: ParameterType
  label :: string
  default_value :: pyval
  min_value :: pyval
  max_value :: pyval
  step :: pyval
  options :: "string list"
  description :: string
  required :: bool

text \<open>The dataclass defaults of \<open>Parameter\<close>: every field but the first three.\<close>

definition new_parameter :: "string \<Rightarrow> ParameterType \<Rightarrow> string \<Rightarrow> Parameter" where
  "new_parameter n t l =
     \<lparr>name = n, param_type = t, label = l, default_value = PyNone, min_value = PyNone,
      max_value = PyNone, step = PyNone, options = [], description = [], required = True\<rparr>"

record Output =
  output_name :: string
  output_type :: OutputType
  output_description :: string

datatype cell_source = SourceLines "string list" | SourceText string

record cell =
  cell_type :: "string option"
  source :: "cell_source option"

record notebook =
  cells :: "cell list option"

text \<open>
  \<open>NotebookAnalysis\<close> without \<open>required_packages\<close> (a list made from a set, whose
  order Python leaves open) and \<open>api_code\<close> (a text template); both are computed by
  code that cannot raise, after the fields below.
\<close>

record NotebookAnalysis =
  title :: string
  analysis_description :: string
  parameters :: "Parameter list"
  outputs :: "Output list"
  has_gradio :: bool
  has_flask :: bool
  has_fastapi :: bool
  model_type :: string
  raw_cells :: "cell list"

section \<open>The pattern table \<open>NotebookParser.PATTERNS\<close>\<close>

text \<open>
  The entries that the parser reads.  The entries \<open>gradio_number\<close>,
  \<open>gradio_checkbox\<close>, \<open>gradio_dropdown\<close>, \<open>gradio_file\<close>, \<open>prompt_var\<close>,
  \<open>negative_prompt\<close>, \<open>seed_var\<close>, \<open>input_func\<close> and \<open>widget_dropdown\<close> are read
  by no function, \<open>pip_install\<close> and \<open>pip3_install\<close> by the package detection only.
\<close>

definition spaces :: atom where
  "spaces = Rep 0 (In py_whitespace)"

definition quote :: cset where
  "quote = In [CHR 0x22, CHR 0x27]"

definition quoted_label :: "atom list" where
  "quoted_label = [One quote, Grp 1 (NotIn [CHR 0x22, CHR 0x27]), One quote]"

definition equals_sign :: "atom list" where
  "equals_sign = [spaces, One (In ''=''), spaces]"

definition gradio_textbox :: "atom list" where
  "gradio_textbox = [Lit [''gr.Textbox''], spaces, One (In ''(''), Rep 0 (NotIn '')''),
     Lit [''label'']] @ equals_sign @ quoted_label"

definition gradio_slider :: "atom list" where
  "gradio_slider = [Lit [''gr.Slider''], spaces, One (In ''(''), Rep 0 (NotIn '')''),
     Lit [''minimum'']] @ equals_sign @ [Grp 1 (In digits), Rep 0 (NotIn '')''),
     Lit [''maximum'']] @ equals_sign @ [Grp 1 (In digits), Rep 0 (NotIn '')''),
     Lit [''label'']] @ equals_sign @ quoted_label"

definition gradio_image :: "atom list" where
  "gradio_image = [Lit [''gr.Image''], spaces, One (In ''(''), Rep 0 (NotIn '')''),
     Lit [''label'']] @ equals_sign @ quoted_label"

definition width_var :: "atom list" where
  "width_var = [Lit [''width'', ''w'']] @ equals_sign @ [Grp 1 (In digits)]"

definition height_var :: "atom list" where
  "height_var = [Lit [''height'', ''h'']] @ equals_sign @ [Grp 1 (In digits)]"

definition steps_var :: "atom list" where
  "steps_var = [Lit [''steps'', ''num_inference_steps'', ''inference_steps'']] @ equals_sign
     @ [Grp 1 (In digits)]"

definition cfg_var :: "atom list" where
  "cfg_var = [Lit [''cfg_scale'', ''guidance_scale'', ''cfg'']] @ equals_sign
     @ [Grp 1 (In (digits @ ''.''))]"

definition strength_var :: "atom list" where
  "strength_var = [Lit [''strength'']] @ equals_sign @ [Grp 1 (In (digits @ ''.''))]"

definition widget_text :: "atom list" where
  "widget_text = [Lit [''widgets.Text''], spaces, One (In ''(''), Rep 0 (NotIn '')''),
     Lit [''description'']] @ equals_sign @ quoted_label"

definition widget_slider :: "atom list" where
  "widget_slider = [Lit [''widgets.''], Lit [''Int'', ''Float''], Lit [''Slider''], spaces,
     One (In ''(''), Rep 0 (NotIn '')''),
     Lit [''min'']] @ equals_sign @ [Grp 1 (In digits), Rep 0 (NotIn '')''),
     Lit [''max'']] @ equals_sign @ [Grp 1 (In digits), Rep 0 (NotIn '')''),
     Lit [''description'']] @ equals_sign @ quoted_label"

definition stable_diffusion :: "atom list" where
  "stable_diffusion = [Lit [''StableDiffusion'', ''stable-diffusion'', ''runwayml'', ''CompVis'']]"

definition controlnet :: "atom list" where
  "controlnet = [Lit [''ControlNet'', ''controlnet'']]"

definition sdxl :: "atom list" where
  "sdxl = [Lit [''SDXL'', ''sdxl'', ''stable-diffusion-xl'']]"

definition flux :: "atom list" where
  "flux = [Lit [''FLUX'', ''flux'']]"

text \<open>
  The patterns written where they are used: a keyword test is a case-insensitive search
  for one of several words; \<open>^#\s+(.+)$\<close> finds a first-level heading; \<open>^#+.*$\<close> is
  a heading line of any level; \<open>[^a-z0-9_]\<close> and \<open>_+\<close> are the sanitizer's.
\<close>

definition keyword :: "string list \<Rightarrow> string \<Rightarrow> bool" where
  "keyword ws code = (re_search IGNORECASE [Lit ws] code \<noteq> None)"

definition h1_line :: "atom list" where
  "h1_line = [Bol, One (In ''#''), Rep 1 (In py_whitespace), Grp 1 Dot, Eol]"

definition heading_line :: "atom list" where
  "heading_line = [Bol, Rep 1 (In ''#''), Rep 0 Dot, Eol]"

definition name_chars :: string where
  "name_chars = ''abcdefghijklmnopqrstuvwxyz0123456789_''"

definition non_name_char :: "atom list" where
  "non_name_char = [One (NotIn name_chars)]"

definition underscores :: "atom list" where
  "underscores = [Rep 1 (In ''_'')]"

section \<open>The parser: \<open>NotebookParser\<close>\<close>

definition sanitize_name :: "string \<Rightarrow> string" where
  "sanitize_name s =
     py_strip_chars ''_''
       (re_sub no_flags underscores ''_''
         (re_sub no_flags non_name_char ''_'' (py_lower s)))"

subsection \<open>\<open>_detect_standard_image_params\<close>\<close>

definition prompt_param :: Parameter where
  "prompt_param = (new_parameter ''prompt'' TEXTAREA ''Prompt'')
     \<lparr>default_value := PyStr [],
      description := ''Beschreibung des gew'' @ [CHR 0xFC] @ ''nschten Bildes''\<rparr>"

definition negative_prompt_param :: Parameter where
  "negative_prompt_param = (new_parameter ''negative_prompt'' TEXTAREA ''Negative Prompt'')
     \<lparr>default_value := PyStr [],
      description := ''Was NICHT im Bild erscheinen soll'', required := False\<rparr>"

definition size_param :: "string \<Rightarrow> string \<Rightarrow> pyval \<Rightarrow> string \<Rightarrow> Parameter" where
  "size_param n l d descr = (new_parameter n SLIDER l)
     \<lparr>default_value := d, min_value := PyInt 256, max_value := PyInt 1024,
      step := PyInt 64, description := descr\<rparr>"

definition steps_param :: "pyval \<Rightarrow> string \<Rightarrow> Parameter" where
  "steps_param d descr = (new_parameter ''steps'' SLIDER ''Schritte'')
     \<lparr>default_value := d, min_value := PyInt 10, max_value := PyInt 150,
      step := PyInt 1, description := descr\<rparr>"

definition cfg_param :: "pyval \<Rightarrow> Parameter" where
  "cfg_param d = (new_parameter ''cfg_scale'' SLIDER ''CFG Scale'')
     \<lparr>default_value := d, min_value := PyFloat ''1.0'', max_value := PyFloat ''20.0'',
      step := PyFloat ''0.5'', description := ''Wie stark der Prompt befolgt wird''\<rparr>"

definition seed_param :: Parameter where
  "seed_param = (new_parameter ''seed'' NUMBER ''Seed'')
     \<lparr>default_value := PyInt (- 1),
      description := ''Zufallszahl f'' @ [CHR 0xFC] @ ''r Reproduzierbarkeit (-1 = zuf''
                     @ [CHR 0xE4] @ ''llig)''\<rparr>"

definition strength_param :: "pyval \<Rightarrow> Parameter" where
  "strength_param d = (new_parameter ''strength'' SLIDER (''St'' @ [CHR 0xE4] @ ''rke''))
     \<lparr>default_value := d, min_value := PyFloat ''0.0'', max_value := PyFloat ''1.0'',
      step := PyFloat ''0.05'', description := ''St'' @ [CHR 0xE4] @ ''rke der Bildbearbeitung''\<rparr>"

definition input_image_param :: Parameter where
  "input_image_param = (new_parameter ''input_image'' IMAGE ''Eingabebild'')
     \<lparr>description := ''Bild f'' @ [CHR 0xFC] @ ''r img2img Bearbeitung'', required := False\<rparr>"

text \<open>
  One entry of the checklist whose default is read from an assignment: the parameter is
  added when the assignment pattern or the keyword is found, and its default is the
  converted first group of the leftmost assignment, or the built-in value without one.
\<close>

definition optional_entry ::
  "atom list \<Rightarrow> string list \<Rightarrow> (string \<Rightarrow> error + pyval) \<Rightarrow> pyval \<Rightarrow> (pyval \<Rightarrow> Parameter)
     \<Rightarrow> string \<Rightarrow> error + Parameter list" where
  "optional_entry pat ws conv fallback mk code =
     (case re_search no_flags pat code of
        Some m \<Rightarrow> (case conv (match_group m 1) of Inl e \<Rightarrow> Inl e | Inr d \<Rightarrow> Inr [mk d])
      | None \<Rightarrow> Inr (if keyword ws code then [mk fallback] else []))"

definition int_value :: "string \<Rightarrow> error + pyval" where
  "int_value s = Inr (PyInt (py_int s))"

text \<open>
  The blocks of a detector in their order: each gives the parameters it appends, and a
  block that raises ends the detector.
\<close>

fun sequence :: "(error + 'a list) list \<Rightarrow> error + 'a list" where
  "sequence [] = Inr []"
| "sequence (x # xs) =
     (case x of
        Inl e \<Rightarrow> Inl e
      | Inr ps \<Rightarrow> (case sequence xs of Inl e \<Rightarrow> Inl e | Inr qs \<Rightarrow> Inr (ps @ qs)))"

definition detect_standard_image_params :: "string \<Rightarrow> error + Parameter list" where
  "detect_standard_image_params code = sequence
     [Inr (if keyword [''prompt''] code then [prompt_param] else []),
      Inr (if keyword [''negative_prompt''] code then [negative_prompt_param] else []),
      optional_entry width_var [''width''] int_value (PyInt 512)
        (\<lambda>d. size_param ''width'' ''Breite'' d ''Bildbreite in Pixeln'') code,
      optional_entry height_var [''height''] int_value (PyInt 512)
        (\<lambda>d. size_param ''height'' (''H'' @ [CHR 0xF6] @ ''he'') d
                (''Bildh'' @ [CHR 0xF6] @ ''he in Pixeln'')) code,
      optional_entry steps_var [''steps'', ''inference''] int_value (PyInt 50)
        (\<lambda>d. steps_param d ''Anzahl der Inferenz-Schritte'') code,
      optional_entry cfg_var [''cfg'', ''guidance''] py_float (PyFloat ''7.5'') cfg_param code,
      Inr (if keyword [''seed''] code then [seed_param] else []),
      optional_entry strength_var [''img2img'', ''strength''] py_float (PyFloat ''0.75'')
        strength_param code,
      Inr (if keyword [''img2img'', ''init_image'', ''input_image''] code
           then [input_image_param] else [])]"

subsection \<open>\<open>_detect_gradio_params\<close>, \<open>_detect_widget_params\<close>\<close>

text \<open>
  The parameter made from one match: of a label pattern, whose group is the label, and of
  a slider pattern, whose groups are the minimum, the maximum and the label.  \<open>float\<close>
  of a text that \<open>\d+\<close> matched does not raise; the conversion is kept as the code
  has it.
\<close>

definition label_param :: "ParameterType \<Rightarrow> re_match \<Rightarrow> error + Parameter list" where
  "label_param t m =
     Inr [new_parameter (sanitize_name (match_group m 1)) t (match_group m 1)]"

definition slider_param :: "re_match \<Rightarrow> error + Parameter list" where
  "slider_param m =
     (case py_float (match_group m 1) of
        Inl e \<Rightarrow> Inl e
      | Inr lo \<Rightarrow>
          (case py_float (match_group m 2) of
             Inl e \<Rightarrow> Inl e
           | Inr hi \<Rightarrow>
               Inr [(new_parameter (sanitize_name (match_group m 3)) SLIDER (match_group m 3))
                    \<lparr>min_value := lo, max_value := hi\<rparr>]))"

definition detect_gradio_params :: "string \<Rightarrow> error + Parameter list" where
  "detect_gradio_params code = sequence
     (map (label_param TEXT) (re_finditer no_flags gradio_textbox code)
      @ map slider_param (re_finditer no_flags gradio_slider code)
      @ map (label_param IMAGE) (re_finditer no_flags gradio_image code))"

definition detect_widget_params :: "string \<Rightarrow> error + Parameter list" where
  "detect_widget_params code = sequence
     (map (label_param TEXT) (re_finditer no_flags widget_text code)
      @ map slider_param (re_finditer no_flags widget_slider code))"

subsection \<open>\<open>_get_default_image_params\<close>, \<open>_detect_parameters\<close>\<close>

definition get_default_image_params :: "Parameter list" where
  "get_default_image_params =
     [prompt_param, negative_prompt_param,
      size_param ''width'' ''Breite'' (PyInt 512) [],
      size_param ''height'' (''H'' @ [CHR 0xF6] @ ''he'') (PyInt 512) [],
      steps_param (PyInt 50) []]"

text \<open>The loop \<open>for param in ...: if param.name not in found_names: ...\<close>.\<close>

fun add_new :: "Parameter list \<Rightarrow> Parameter list \<times> string set \<Rightarrow> Parameter list \<times> string set" where
  "add_new [] st = st"
| "add_new (p # ps) (params, found_names) =
     add_new ps (if name p \<notin> found_names
                 then (params @ [p], insert (name p) found_names)
                 else (params, found_names))"

definition detect_parameters :: "string \<Rightarrow> error + Parameter list" where
  "detect_parameters code =
     (case detect_standard_image_params code of
        Inl e \<Rightarrow> Inl e
      | Inr standard_params \<Rightarrow>
          (case detect_gradio_params code of
             Inl e \<Rightarrow> Inl e
           | Inr gradio_params \<Rightarrow>
               (case detect_widget_params code of
                  Inl e \<Rightarrow> Inl e
                | Inr widget_params \<Rightarrow>
                    (let params = fst (add_new widget_params
                                        (add_new gradio_params
                                          (add_new standard_params ([], {}))))
                     in Inr (if params = [] then get_default_image_params else params)))))"

subsection \<open>\<open>_detect_outputs\<close>, \<open>_detect_model_type\<close>\<close>

definition image_output :: Output where
  "image_output = \<lparr>output_name = ''generated_image'', output_type = OUT_IMAGE,
     output_description = ''Generiertes Bild''\<rparr>"

definition audio_output :: Output where
  "audio_output = \<lparr>output_name = ''generated_audio'', output_type = OUT_AUDIO,
     output_description = ''Generiertes Audio''\<rparr>"

definition video_output :: Output where
  "video_output = \<lparr>output_name = ''generated_video'', output_type = OUT_VIDEO,
     output_description = ''Generiertes Video''\<rparr>"

definition detect_outputs :: "string \<Rightarrow> Output list" where
  "detect_outputs code =
     (let outs =
        (if keyword [''.save('', ''Image.'', ''PIL'', ''cv2'', ''plt.show'', ''display(''] code
         then [image_output] else [])
        @ (if keyword [''audio'', ''wav'', ''mp3'', ''tts'', ''speech''] code
           then [audio_output] else [])
        @ (if keyword [''video'', ''mp4'', ''avi'', ''animate''] code
           then [video_output] else [])
      in if outs = [] then [image_output] else outs)"

definition detect_model_type :: "string \<Rightarrow> string" where
  "detect_model_type code =
     (if re_search IGNORECASE flux code \<noteq> None then ''flux''
      else if re_search IGNORECASE sdxl code \<noteq> None then ''sdxl''
      else if re_search IGNORECASE controlnet code \<noteq> None then ''controlnet''
      else if re_search IGNORECASE stable_diffusion code \<noteq> None then ''stable_diffusion''
      else if py_in ''diffusers'' (py_lower code) then ''diffusers''
      else if py_in ''transformers'' (py_lower code) then ''transformers''
      else ''unknown'')"

text \<open>
  The classification as a ladder: the tests of the six families in their fixed order, and
  the first family whose test succeeds.
\<close>

definition family_tests :: "string \<Rightarrow> (string \<times> bool) list" where
  "family_tests code =
     [(''flux'', re_search IGNORECASE flux code \<noteq> None),
      (''sdxl'', re_search IGNORECASE sdxl code \<noteq> None),
      (''controlnet'', re_search IGNORECASE controlnet code \<noteq> None),
      (''stable_diffusion'', re_search IGNORECASE stable_diffusion code \<noteq> None),
      (''diffusers'', py_in ''diffusers'' (py_lower code)),
      (''transformers'', py_in ''transformers'' (py_lower code))]"

definition first_family :: "(string \<times> bool) list \<Rightarrow> string" where
  "first_family tests = (case filter snd tests of [] \<Rightarrow> ''unknown'' | t # ts \<Rightarrow> fst t)"

subsection \<open>\<open>_extract_metadata\<close>\<close>

text \<open>
  \<open>''.join(cell.get('source', [])) if isinstance(cell.get('source'), list)
  else cell.get('source', '')\<close>: a cell without a source has the empty text.
\<close>

definition source_text :: "cell \<Rightarrow> string" where
  "source_text c =
     (case source c of
        Some (SourceLines ls) \<Rightarrow> concat ls
      | Some (SourceText t) \<Rightarrow> t
      | None \<Rightarrow> [])"

definition h1_title :: "cell \<Rightarrow> string option" where
  "h1_title c =
     (case re_search MULTILINE h1_line (source_text c) of
        Some m \<Rightarrow> Some (py_strip (match_group m 1))
      | None \<Rightarrow> None)"

definition prose :: "cell \<Rightarrow> string" where
  "prose c = py_strip (re_sub MULTILINE heading_line [] (source_text c))"

text \<open>
  The loop over the markdown cells, with its two variables.  A cell's heading always
  replaces the title; the loop is left at the first cell that has text besides its
  heading lines.
\<close>

fun scan_cells :: "cell list \<Rightarrow> string \<Rightarrow> string \<Rightarrow> string \<times> string" where
  "scan_cells [] ttl descr = (ttl, descr)"
| "scan_cells (c # cs) ttl descr =
     (let ttl' = (case h1_title c of Some h \<Rightarrow> h | None \<Rightarrow> ttl)
      in if descr = []
         then (if prose c \<noteq> [] then (ttl', take 500 (prose c)) else scan_cells cs ttl' descr)
         else scan_cells cs ttl' descr)"

definition extract_metadata ::
  "(string \<Rightarrow> string) \<Rightarrow> cell list \<Rightarrow> string \<Rightarrow> string \<times> string" where
  "extract_metadata tc markdown_cells filename =
     scan_cells markdown_cells
       (tc (py_replace ''-'' '' '' (py_replace ''_'' '' '' (py_replace ''.ipynb'' [] filename))))
       []"

subsection \<open>\<open>_analyze_notebook\<close>\<close>

definition cells_of :: "notebook \<Rightarrow> cell list" where
  "cells_of nb = (case cells nb of Some cs \<Rightarrow> cs | None \<Rightarrow> [])"

definition code_cells :: "notebook \<Rightarrow> cell list" where
  "code_cells nb = filter (\<lambda>c. cell_type c = Some ''code'') (cells_of nb)"

definition markdown_cells :: "notebook \<Rightarrow> cell list" where
  "markdown_cells nb = filter (\<lambda>c. cell_type c = Some ''markdown'') (cells_of nb)"

definition all_code :: "notebook \<Rightarrow> string" where
  "all_code nb = py_join [CHR 0x0A] (map source_text (code_cells nb))"

definition analyze_notebook ::
  "(string \<Rightarrow> string) \<Rightarrow> notebook \<Rightarrow> string \<Rightarrow> error + NotebookAnalysis" where
  "analyze_notebook tc nb filename =
     (let code = all_code nb;
          (ttl, descr) = extract_metadata tc (markdown_cells nb) filename
      in case detect_parameters code of
           Inl e \<Rightarrow> Inl e
         | Inr params \<Rightarrow>
             Inr \<lparr>title = ttl, analysis_description = descr, parameters = params,
                  outputs = detect_outputs code,
                  has_gradio = (py_in ''gradio'' (py_lower code) \<or> py_in ''import gr'' code),
                  has_flask = py_in ''flask'' (py_lower code),
                  has_fastapi = py_in ''fastapi'' (py_lower code),
                  model_type = detect_model_type code,
                  raw_cells = cells_of nb\<rparr>)"

section \<open>The value collection of the interface: \<open>core/gui_generator.py\<close>\<close>

definition sq :: "string \<Rightarrow> string" where
  "sq s = [CHR 0x27] @ s @ [CHR 0x27]"

text \<open>\<open>_generate_param_collection_js\<close>: one line of JavaScript for each parameter.\<close>

definition param_collection_line :: "Parameter \<Rightarrow> string" where
  "param_collection_line param =
     (if param_type param = CHECKBOX then
        ''params['' @ sq (name param) @ ''] = document.getElementById('' @ sq (name param)
          @ '')?.checked || false;''
      else if param_type param = IMAGE then
        ''params['' @ sq (name param) @ ''] = await getImageBase64(''
          @ sq (name param @ ''_input'') @ '');''
      else if param_type param \<in> {SLIDER, NUMBER} then
        ''params['' @ sq (name param) @ ''] = parseFloat(document.getElementById(''
          @ sq (name param) @ '')?.value || 0);''
      else if param_type param = TEXTAREA then
        ''params['' @ sq (name param) @ ''] = document.getElementById('' @ sq (name param)
          @ '')?.value || '' @ sq [] @ '';''
      else
        ''params['' @ sq (name param) @ ''] = document.getElementById('' @ sq (name param)
          @ '')?.value || '' @ sq [] @ '';'')"

definition generate_param_collection_js :: "NotebookAnalysis \<Rightarrow> string" where
  "generate_param_collection_js analysis =
     py_join (CHR 0x0A # replicate 12 (CHR '' ''))
       (map param_collection_line (parameters analysis))"

text \<open>
  What the emitted lines compute.  A line is \<open>params[key] = e;\<close> where \<open>e\<close> is one of
  the expressions below; \<open>render_stmt\<close> writes it out again.  A control of the page has a
  text value and a checked state; \<open>document.getElementById(i)?.p\<close> is \<open>undefined\<close> for
  an absent control; \<open>a || b\<close> is \<open>a\<close> unless \<open>a\<close> is \<open>undefined\<close>, \<open>false\<close> or the
  empty text; \<open>parseFloat\<close> returns the number 0 as it is, and the number a text starts
  with (kept as \<open>JsParsedFloat\<close> of the text).  What the awaited call of the page's
  \<open>getImageBase64\<close> resolves to is kept as \<open>JsImageBase64\<close> of the control's identifier.
\<close>

datatype js_read = Checked string | Value string

datatype js_literal = JsFalse | JsZero | JsEmptyText

datatype js_expr =
  ReadOr js_read js_literal | ParseFloat js_expr | AwaitImageBase64 string

fun render_read :: "js_read \<Rightarrow> string" where
  "render_read (Checked i) = ''document.getElementById('' @ sq i @ '')?.checked''"
| "render_read (Value i) = ''document.getElementById('' @ sq i @ '')?.value''"

fun render_literal :: "js_literal \<Rightarrow> string" where
  "render_literal JsFalse = ''false''"
| "render_literal JsZero = ''0''"
| "render_literal JsEmptyText = sq []"

fun render_expr :: "js_expr \<Rightarrow> string" where
  "render_expr (ReadOr r l) = render_read r @ '' || '' @ render_literal l"
| "render_expr (ParseFloat e) = ''parseFloat('' @ render_expr e @ '')''"
| "render_expr (AwaitImageBase64 i) = ''await getImageBase64('' @ sq i @ '')''"

definition render_stmt :: "string \<times> js_expr \<Rightarrow> string" where
  "render_stmt st = ''params['' @ sq (fst st) @ ''] = '' @ render_expr (snd st) @ '';''"

definition collection_rule :: "Parameter \<Rightarrow> string \<times> js_expr" where
  "collection_rule param =
     (name param,
      if param_type param = CHECKBOX then ReadOr (Checked (name param)) JsFalse
      else if param_type param = IMAGE then AwaitImageBase64 (name param @ ''_input'')
      else if param_type param \<in> {SLIDER, NUMBER}
      then ParseFloat (ReadOr (Value (name param)) JsZero)
      else ReadOr (Value (name param)) JsEmptyText)"

record control =
  control_value :: string
  control_checked :: bool

datatype js_value =
  JsUndefined | JsBool bool | JsText string | JsNumber int | JsNaN
  | JsParsedFloat string | JsImageBase64 string

fun read_control :: "(string \<Rightarrow> control option) \<Rightarrow> js_read \<Rightarrow> js_value" where
  "read_control page (Checked i) =
     (case page i of None \<Rightarrow> JsUndefined | Some c \<Rightarrow> JsBool (control_checked c))"
| "read_control page (Value i) =
     (case page i of None \<Rightarrow> JsUndefined | Some c \<Rightarrow> JsText (control_value c))"

fun literal_value :: "js_literal \<Rightarrow> js_value" where
  "literal_value JsFalse = JsBool False"
| "literal_value JsZero = JsNumber 0"
| "literal_value JsEmptyText = JsText []"

fun truthy :: "js_value \<Rightarrow> bool" where
  "truthy (JsBool b) = b"
| "truthy (JsText t) = (t \<noteq> [])"
| "truthy (JsNumber n) = (n \<noteq> 0)"
| "truthy v = False"

fun eval_expr :: "(string \<Rightarrow> control option) \<Rightarrow> js_expr \<Rightarrow> js_value" where
  "eval_expr page (ReadOr r l) =
     (if truthy (read_control page r) then read_control page r else literal_value l)"
| "eval_expr page (ParseFloat e) =
     (case eval_expr page e of
        JsText t \<Rightarrow> JsParsedFloat t
      | JsNumber n \<Rightarrow> JsNumber n
      | v \<Rightarrow> JsNaN)"
| "eval_expr page (AwaitImageBase64 i) = JsImageBase64 i"

text \<open>A page with one text control, whose value has blanks around it.\<close>

definition sample_page :: "string \<Rightarrow> control option" where
  "sample_page = [''prompt'' \<mapsto> \<lparr>control_value = '' a cat '', control_checked = False\<rparr>]"

section \<open>The transport adapter: \<open>ColabManager.generate\<close> in \<open>core/colab_manager.py\<close>\<close>

datatype json =
  JNull | JBool bool | JNumber int | JString string | JArray "json list"
  | JObject "(string \<times> json) list"

text \<open>
  An exception raised in the \<open>try\<close> block, with its text \<open>str(e)\<close>: a
  \<open>requests.exceptions.Timeout\<close>, a \<open>ConnectionError\<close> that is no timeout, or any
  other \<open>Exception\<close>.  A response has its status code and what \<open>response.json()\<close>
  does: it returns a value or raises with a text.  The network is the argument
  \<open>post\<close>, from the URL and the body to what \<open>requests.post\<close> does.
\<close>

datatype request_exception = Timeout string | ConnectionError string | OtherException string

fun exception_text :: "request_exception \<Rightarrow> string" where
  "exception_text (Timeout t) = t"
| "exception_text (ConnectionError t) = t"
| "exception_text (OtherException t) = t"

record response =
  status_code :: nat
  json_result :: "string + json"

function str_nat :: "nat \<Rightarrow> string" where
  "str_nat n = (if n < 10 then [digits ! n] else str_nat (n div 10) @ [digits ! (n mod 10)])"
  by pat_completeness auto
termination
  by (relation "measure (\<lambda>n. n)") auto

declare str_nat.simps [simp del]

definition failure :: "string \<Rightarrow> json" where
  "failure msg = JObject [(''success'', JBool False), (''message'', JString msg)]"

definition generate_try ::
  "(string \<Rightarrow> json \<Rightarrow> request_exception + response) \<Rightarrow> string \<Rightarrow> json
     \<Rightarrow> request_exception + json" where
  "generate_try post api_url params =
     (case post (api_url @ ''/generate'') params of
        Inl e \<Rightarrow> Inl e
      | Inr r \<Rightarrow>
          if status_code r = 200
          then (case json_result r of Inl t \<Rightarrow> Inl (OtherException t) | Inr v \<Rightarrow> Inr v)
          else Inr (failure (''Server-Fehler: '' @ str_nat (status_code r))))"

text \<open>The result is \<open>Inl e\<close> when \<open>e\<close> leaves \<open>generate\<close>, \<open>Inr v\<close> when it returns \<open>v\<close>.\<close>

definition generate ::
  "(string \<Rightarrow> json \<Rightarrow> request_exception + response) \<Rightarrow> string \<Rightarrow> json
     \<Rightarrow> request_exception + json" where
  "generate post api_url params =
     (if api_url = [] then Inr (failure ''Keine API-URL konfiguriert'')
      else (case generate_try post api_url params of
              Inr v \<Rightarrow> Inr v
            | Inl (Timeout t) \<Rightarrow>
                Inr (failure (''Zeit'' @ [CHR 0xFC] @ ''berschreitung bei der Generierung''))
            | Inl e \<Rightarrow> Inr (failure (''Fehler: '' @ exception_text e))))"

section \<open>Notions used in the statements\<close>

text \<open>A text without two underscores in a row.\<close>

fun no_dbl :: "string \<Rightarrow> bool" where
  "no_dbl (a # b # s) = (\<not> (a = CHR ''_'' \<and> b = CHR ''_'') \<and> no_dbl (b # s))"
| "no_dbl s = True"

text \<open>The kinds of parameter that the parser constructs.\<close>

definition gui_kind :: "ParameterType \<Rightarrow> bool" where
  "gui_kind t = (t \<in> {TEXTAREA, TEXT, NUMBER, SLIDER, IMAGE})"

text \<open>
  The markdown cells that the loop of \<open>_extract_metadata\<close> reads: those without text
  besides heading lines, and the first one that has such text; and the heading of the
  last cell of a list that has a first-level heading.
\<close>

definition scanned :: "cell list \<Rightarrow> cell list" where
  "scanned cs = takeWhile (\<lambda>c. prose c = []) cs @ take 1 (dropWhile (\<lambda>c. prose c = []) cs)"

definition last_heading :: "cell list \<Rightarrow> string option" where
  "last_heading cs = (case rev (List.map_filter h1_title cs) of [] \<Rightarrow> None | h # hs \<Rightarrow> Some h)"

text \<open>
  Three notebooks: two markdown cells that are a heading each; a code cell that builds a
  text box labelled \<open>!!!\<close>; a code cell that assigns a width and then a height and
  uses both.
\<close>

definition heading_only_notebook :: notebook where
  "heading_only_notebook = \<lparr>cells = Some
     [\<lparr>cell_type = Some ''markdown'', source = Some (SourceLines [''# First''])\<rparr>,
      \<lparr>cell_type = Some ''markdown'', source = Some (SourceText ''# Second'')\<rparr>]\<rparr>"

definition textbox_notebook :: notebook where
  "textbox_notebook = \<lparr>cells = Some
     [\<lparr>cell_type = Some ''code'',
       source = Some (SourceText (''gr.Textbox(label='' @ [CHR 0x22] @ ''!!!'' @ [CHR 0x22] @ '')''))\<rparr>]\<rparr>"

definition size_notebook :: notebook where
  "size_notebook = \<lparr>cells = Some
     [\<lparr>cell_type = Some ''code'',
       source = Some (SourceLines [''width = 768'' @ [CHR 0x0A], ''height = 512'' @ [CHR 0x0A],
                                   ''f(width, height)'' @ [CHR 0x0A]])\<rparr>]\<rparr>"

section \<open>Properties of the characters and the pattern matcher\<close>

text \<open>Lower-casing a letter adds 32 to its code.\<close>

lemma add_32_code:
  "65 \<le> (of_char c :: nat) \<and> (of_char c :: nat) \<le> 90 \<or> 192 \<le> (of_char c :: nat) \<and> (of_char c :: nat) \<le> 222
   \<Longrightarrow> of_char (add_32 c) = (of_char c :: nat) + 32"
proof (cases c)
  case (Char b0 b1 b2 b3 b4 b5 b6 b7)
  assume r: "65 \<le> (of_char c :: nat) \<and> (of_char c :: nat) \<le> 90 \<or> 192 \<le> (of_char c :: nat) \<and> (of_char c :: nat) \<le> 222"
  have "\<not> b5"
  proof
    assume b5
    with r Char show False
      by (cases b0; cases b1; cases b2; cases b3; cases b4; cases b6; cases b7) simp_all
  qed
  with Char show ?thesis by (simp add: add_32_def)
qed

lemma first_some_Some:
  "first_some f xs = Some r \<Longrightarrow> \<exists>x \<in> set xs. f x = Some r"
  by (induction xs) (auto split: option.splits)

text \<open>A match has one text for each group of its pattern, so that \<open>match_group\<close> reads
  inside the list for the groups that the pattern has.\<close>

lemma match_here_groups:
  "match_here fl p prev s = Some (caps, rest) \<Longrightarrow> length caps = group_count p"
proof (induction p arbitrary: prev s caps rest)
  case Nil
  then show ?case by simp
next
  case (Cons a as)
  show ?case
  proof (cases a)
    case (Lit alts)
    from Cons.prems [unfolded Lit] obtain l where "l \<in> set alts" and
      "(if lit_match (ignorecase fl) l s
        then match_here fl as (adv prev s (length l)) (drop (length l) s) else None) = Some (caps, rest)"
      using first_some_Some [of _ alts "(caps, rest)"] by (simp only: match_here.simps) blast
    then have "match_here fl as (adv prev s (length l)) (drop (length l) s) = Some (caps, rest)"
      by (simp split: if_splits)
    from Cons.IH [OF this] Lit show ?thesis by simp
  next
    case (One cs)
    with Cons show ?thesis by (auto split: list.splits if_splits)
  next
    case (Rep n cs)
    from Cons.prems [unfolded Rep] obtain k where
      "match_here fl as (adv prev s k) (drop k s) = Some (caps, rest)"
      using first_some_Some [of _ _ "(caps, rest)"] by (simp only: match_here.simps) blast
    from Cons.IH [OF this] Rep show ?thesis by simp
  next
    case (Grp n cs)
    from Cons.prems [unfolded Grp] obtain k where
      "(case match_here fl as (adv prev s k) (drop k s) of None \<Rightarrow> None
        | Some (caps, rest) \<Rightarrow> Some (take k s # caps, rest)) = Some (caps, rest)"
      using first_some_Some [of _ _ "(caps, rest)"] by (simp only: match_here.simps) blast
    then obtain caps' where "match_here fl as (adv prev s k) (drop k s) = Some (caps', rest)"
      and "caps = take k s # caps'"
      by (auto split: option.splits)
    with Cons.IH [of "adv prev s k" "drop k s" caps' rest] Grp show ?thesis by simp
  next
    case Bol
    with Cons show ?thesis by (auto split: if_splits)
  next
    case Eol
    with Cons show ?thesis by (auto split: if_splits)
  qed
qed

lemma sub_from_Nil:
  "sub_from fl p repl prev [] = (case match_here fl p prev [] of None \<Rightarrow> [] | Some r \<Rightarrow> repl)"
  by (subst sub_from.simps) (simp split: option.splits)

lemma sub_from_Cons:
  "sub_from fl p repl prev (c # s) =
     (case match_here fl p prev (c # s) of
        None \<Rightarrow> c # sub_from fl p repl (Some c) s
      | Some (caps, rest) \<Rightarrow>
          if length rest < Suc (length s)
          then repl @ sub_from fl p repl (adv prev (c # s) (Suc (length s) - length rest)) rest
          else repl @ c # sub_from fl p repl (Some c) s)"
  by (subst sub_from.simps) (simp split: option.splits)

lemma match_One:
  "match_here fl [One cs] prev s =
     (case s of [] \<Rightarrow> None | c # s' \<Rightarrow> if cs_match cs c then Some ([], s') else None)"
  by (simp split: list.splits)

lemma sub_from_One:
  "sub_from fl [One cs] repl prev s = concat (map (\<lambda>c. if cs_match cs c then repl else [c]) s)"
  by (induction s arbitrary: prev) (simp_all add: sub_from_Nil sub_from_Cons adv_def)

lemma countdown_lt: "n < lo \<Longrightarrow> countdown n lo = []"
  by (cases n) auto

lemma countdown_ge:
  "lo \<le> n \<Longrightarrow> countdown n lo = n # (if lo < n then countdown (n - 1) lo else [])"
  by (cases n) (auto simp: countdown_lt)

lemma match_Rep1:
  "match_here fl [Rep (Suc 0) cs] prev s =
     (if 1 \<le> length (takeWhile (cs_match cs) s)
      then Some ([], drop (length (takeWhile (cs_match cs) s)) s) else None)"
  by (cases "length (takeWhile (cs_match cs) s)") (auto simp: countdown_lt)


lemma squeeze_Nil: "sub_from fl underscores ''_'' prev [] = []"
  by (simp add: underscores_def sub_from_Nil match_Rep1)

lemma squeeze_other:
  "c \<noteq> CHR ''_'' \<Longrightarrow> sub_from fl underscores ''_'' prev (c # s) = c # sub_from fl underscores ''_'' (Some c) s"
  by (simp add: underscores_def sub_from_Cons match_Rep1)

lemma squeeze_us:
  "\<exists>prev'. sub_from fl underscores ''_'' prev (CHR ''_'' # s) =
     CHR ''_'' # sub_from fl underscores ''_'' prev' (dropWhile (\<lambda>c. c = CHR ''_'') s)"
proof -
  have eq: "cs_match (In ''_'') = (\<lambda>c. c = CHR ''_'')" by (rule ext) simp
  show ?thesis
    unfolding underscores_def
    by (subst sub_from_Cons) (auto simp: match_Rep1 eq dropWhile_eq_drop)
qed

lemma no_dbl_other: "c \<noteq> CHR ''_'' \<Longrightarrow> no_dbl (c # xs) = no_dbl xs"
  by (cases xs) auto

lemma no_dbl_us: "no_dbl (CHR ''_'' # xs) = ((xs = [] \<or> hd xs \<noteq> CHR ''_'') \<and> no_dbl xs)"
  by (cases xs) auto

lemma no_dbl_tl: "no_dbl (c # xs) \<Longrightarrow> no_dbl xs"
  by (cases xs) auto

lemma squeeze_hd:
  "s = [] \<or> hd s \<noteq> CHR ''_'' \<Longrightarrow>
   sub_from fl underscores ''_'' prev s = [] \<or> hd (sub_from fl underscores ''_'' prev s) \<noteq> CHR ''_''"
  by (cases s) (auto simp: squeeze_Nil squeeze_other)

lemma squeeze_no_dbl: "no_dbl (sub_from fl underscores ''_'' prev s)"
proof (induction "length s" arbitrary: s prev rule: less_induct)
  case less
  show ?case
  proof (cases s)
    case Nil
    then show ?thesis by (simp add: squeeze_Nil)
  next
    case (Cons c t)
    show ?thesis
    proof (cases "c = CHR ''_''")
      case False
      with Cons less show ?thesis by (simp add: squeeze_other no_dbl_other)
    next
      case True
      let ?d = "dropWhile (\<lambda>c. c = CHR ''_'') t"
      obtain prev' where e: "sub_from fl underscores ''_'' prev (CHR ''_'' # t) =
          CHR ''_'' # sub_from fl underscores ''_'' prev' ?d"
        using squeeze_us by blast
      have "length ?d < length s" using Cons by (simp add: length_dropWhile_le less_Suc_eq_le)
      then have n: "no_dbl (sub_from fl underscores ''_'' prev' ?d)" by (rule less)
      have "?d = [] \<or> hd ?d \<noteq> CHR ''_''"
        using hd_dropWhile [of "\<lambda>c. c = CHR ''_''" t] by auto
      then have h: "sub_from fl underscores ''_'' prev' ?d = [] \<or> hd (sub_from fl underscores ''_'' prev' ?d) \<noteq> CHR ''_''"
        by (rule squeeze_hd)
      show ?thesis using Cons True e n h by (simp add: no_dbl_us)
    qed
  qed
qed

lemma squeeze_set: "set (sub_from fl underscores ''_'' prev s) \<subseteq> set s"
proof (induction "length s" arbitrary: s prev rule: less_induct)
  case less
  show ?case
  proof (cases s)
    case Nil
    then show ?thesis by (simp add: squeeze_Nil)
  next
    case (Cons c t)
    show ?thesis
    proof (cases "c = CHR ''_''")
      case False
      with Cons less [of t "Some c"] show ?thesis by (auto simp: squeeze_other)
    next
      case True
      let ?d = "dropWhile (\<lambda>c. c = CHR ''_'') t"
      obtain prev' where e: "sub_from fl underscores ''_'' prev (CHR ''_'' # t) =
          CHR ''_'' # sub_from fl underscores ''_'' prev' ?d"
        using squeeze_us by blast
      have "length ?d < length s" using Cons by (simp add: length_dropWhile_le less_Suc_eq_le)
      then have "set (sub_from fl underscores ''_'' prev' ?d) \<subseteq> set ?d" by (rule less)
      moreover have "set ?d \<subseteq> set t" by (rule set_dropWhileD [THEN subsetI]) 
      ultimately show ?thesis using Cons True e by auto
    qed
  qed
qed

lemma squeeze_fix: "no_dbl s \<Longrightarrow> sub_from fl underscores ''_'' prev s = s"
proof (induction s arbitrary: prev)
  case Nil
  show ?case by (simp add: squeeze_Nil)
next
  case (Cons c t)
  show ?case
  proof (cases "c = CHR ''_''")
    case False
    with Cons show ?thesis by (simp add: squeeze_other no_dbl_other)
  next
    case True
    with Cons.prems have h: "t = [] \<or> hd t \<noteq> CHR ''_''" and n: "no_dbl t"
      by (simp_all add: no_dbl_us)
    from h have d: "dropWhile (\<lambda>c. c = CHR ''_'') t = t" by (cases t) auto
    obtain prev' where e: "sub_from fl underscores ''_'' prev (CHR ''_'' # t) =
        CHR ''_'' # sub_from fl underscores ''_'' prev' (dropWhile (\<lambda>c. c = CHR ''_'') t)"
      using squeeze_us by blast
    show ?thesis using True e d Cons.IH [OF n] by simp
  qed
qed

lemma strip_prefix: "\<exists>ys. dropWhile (\<lambda>c. c \<in> set cs) s = py_strip_chars cs s @ ys"
proof -
  let ?d = "dropWhile (\<lambda>c. c \<in> set cs) s"
  let ?e = "dropWhile (\<lambda>c. c \<in> set cs) (rev ?d)"
  let ?t = "takeWhile (\<lambda>c. c \<in> set cs) (rev ?d)"
  have "rev (rev ?d) = rev (?t @ ?e)"
    by (simp only: takeWhile_dropWhile_id)
  then have "?d = rev ?e @ rev ?t"
    by (simp only: rev_append rev_rev_ident)
  then show ?thesis unfolding py_strip_chars_def by (rule exI)
qed

lemma no_dbl_append: "no_dbl (xs @ ys) \<Longrightarrow> no_dbl xs"
  by (induction xs rule: no_dbl.induct) auto

lemma no_dbl_dropWhile: "no_dbl s \<Longrightarrow> no_dbl (dropWhile P s)"
  by (induction s) (auto dest: no_dbl_tl)

lemma strip_no_dbl:
  assumes "no_dbl s" shows "no_dbl (py_strip_chars cs s)"
proof -
  obtain ys where ys: "dropWhile (\<lambda>c. c \<in> set cs) s = py_strip_chars cs s @ ys"
    using strip_prefix by blast
  have "no_dbl (dropWhile (\<lambda>c. c \<in> set cs) s)" using assms by (rule no_dbl_dropWhile)
  then show ?thesis unfolding ys by (rule no_dbl_append)
qed


lemma strip_set: "set (py_strip_chars cs s) \<subseteq> set s"
proof -
  obtain ys where "dropWhile (\<lambda>c. c \<in> set cs) s = py_strip_chars cs s @ ys"
    using strip_prefix by blast
  then have "set (py_strip_chars cs s) \<subseteq> set (dropWhile (\<lambda>c. c \<in> set cs) s)" by simp
  also have "\<dots> \<subseteq> set s" by (rule subsetI) (rule set_dropWhileD)
  finally show ?thesis .
qed

lemma strip_hd:
  assumes "py_strip_chars cs s = x # xs" shows "x \<notin> set cs"
proof -
  obtain ys where "dropWhile (\<lambda>c. c \<in> set cs) s = py_strip_chars cs s @ ys"
    using strip_prefix by blast
  with assms have "dropWhile (\<lambda>c. c \<in> set cs) s = x # (xs @ ys)" by simp
  then show ?thesis using hd_dropWhile [of "\<lambda>c. c \<in> set cs" s] by auto
qed

lemma strip_idem: "py_strip_chars cs (py_strip_chars cs s) = py_strip_chars cs s"
proof -
  let ?P = "\<lambda>c. c \<in> set cs"
  let ?r = "py_strip_chars cs s"
  have front: "dropWhile ?P ?r = ?r"
    by (cases ?r) (auto dest: strip_hd)
  have tail_fix: "dropWhile ?P (rev ?r) = rev ?r"
    by (simp only: py_strip_chars_def rev_rev_ident dropWhile_idem)
  have "py_strip_chars cs ?r = rev (dropWhile ?P (rev (dropWhile ?P ?r)))"
    by (rule py_strip_chars_def)
  also have "\<dots> = ?r" by (simp only: front tail_fix rev_rev_ident)
  finally show ?thesis .
qed

lemma lower_name_char: "c \<in> set name_chars \<Longrightarrow> py_lower_char c = c"
  by (auto simp: name_chars_def py_lower_char_def)

lemma underscore_name_char: "CHR ''_'' \<in> set name_chars"
  by (simp add: name_chars_def)

lemma replace_set: "set (sub_from fl non_name_char ''_'' prev s) \<subseteq> set name_chars"
  using underscore_name_char by (induction s) (auto simp: non_name_char_def sub_from_One)

lemma replace_fix:
  "set s \<subseteq> set name_chars \<Longrightarrow> sub_from fl non_name_char ''_'' prev s = s"
  by (induction s) (auto simp: non_name_char_def sub_from_One)

lemma sanitize_chars: "set (sanitize_name x) \<subseteq> set name_chars"
proof -
  let ?a = "re_sub no_flags non_name_char ''_'' (py_lower x)"
  let ?b = "re_sub no_flags underscores ''_'' ?a"
  have "set (sanitize_name x) \<subseteq> set ?b" unfolding sanitize_name_def by (rule strip_set)
  also have "\<dots> \<subseteq> set ?a" unfolding re_sub_def by (rule squeeze_set)
  also have "\<dots> \<subseteq> set name_chars" unfolding re_sub_def by (rule replace_set)
  finally show ?thesis .
qed

lemma sanitize_no_dbl: "no_dbl (sanitize_name x)"
  unfolding sanitize_name_def re_sub_def
  by (rule strip_no_dbl) (rule squeeze_no_dbl)

text \<open>
  C9: the sanitizer is idempotent.  A sanitized name has only characters of
  \<open>[a-z0-9_]\<close>, no two underscores in a row and none at either end, so that every
  step of a second run leaves it as it is; the detectors therefore give one name for
  one label, however often they run.
\<close>

theorem sanitize_name_idempotent: "sanitize_name (sanitize_name x) = sanitize_name x"
proof -
  let ?r = "sanitize_name x"
  have "\<forall>c \<in> set ?r. py_lower_char c = c"
    using sanitize_chars [of x] lower_name_char by blast
  then have l: "py_lower ?r = ?r"
    unfolding py_lower_def by (simp add: map_idI)
  have m: "re_sub no_flags non_name_char ''_'' ?r = ?r"
    unfolding re_sub_def using sanitize_chars by (rule replace_fix)
  have q: "re_sub no_flags underscores ''_'' ?r = ?r"
    unfolding re_sub_def using sanitize_no_dbl by (rule squeeze_fix)
  have "sanitize_name ?r = py_strip_chars ''_'' ?r"
    by (subst sanitize_name_def) (simp only: l m q)
  also have "\<dots> = ?r"
    unfolding sanitize_name_def by (rule strip_idem)
  finally show ?thesis .
qed

theorem sanitize_name_idempotent_witness:
  "sanitize_name (sanitize_name '' My  Label! '') = ''my_label'' \<and> sanitize_name '' My  Label! '' = ''my_label''"
proof -
  have "sanitize_name '' My  Label! '' = ''my_label''" by code_simp
  then show ?thesis using sanitize_name_idempotent [of "'' My  Label! ''"] by simp
qed

section \<open>Model-family classification\<close>

text \<open>
  C7: for every text the classification returns one of the seven family names, and it is
  the first family of the ladder (flux, sdxl, controlnet, stable_diffusion, diffusers,
  transformers) whose keyword test succeeds, \<open>unknown\<close> when none does.
\<close>

theorem detect_model_type_ladder:
  "detect_model_type code \<in> set [''stable_diffusion'', ''sdxl'', ''flux'', ''controlnet'',
       ''diffusers'', ''transformers'', ''unknown'']
   \<and> detect_model_type code = first_family (family_tests code)"
  by (simp add: detect_model_type_def first_family_def family_tests_def)


lemmas model_type_eval = detect_model_type_def re_search_def IGNORECASE_def flux_def sdxl_def
  controlnet_def stable_diffusion_def py_in_def py_lower_def py_lower_char_def add_32_def

theorem detect_model_type_ladder_witness:
  "detect_model_type ''pipe = StableDiffusionXLPipeline()'' = ''stable_diffusion''
   \<and> first_family (family_tests ''pipe = StableDiffusionXLPipeline()'') = ''stable_diffusion''
   \<and> detect_model_type ''import numpy'' = ''unknown''"
proof -
  have "detect_model_type ''pipe = StableDiffusionXLPipeline()'' = ''stable_diffusion''"
    by (simp add: model_type_eval)
  moreover have "detect_model_type ''import numpy'' = ''unknown''"
    by (simp add: model_type_eval)
  ultimately show ?thesis
    using detect_model_type_ladder [of "''pipe = StableDiffusionXLPipeline()''"]
    by simp
qed

section \<open>The transport adapter's failures\<close>

lemma str_nat_nonempty: "str_nat n \<noteq> []"
  by (subst str_nat.simps) simp

text \<open>
  C8: \<open>generate\<close> always returns a value, whatever the network does, and when the
  request raises (a timeout, a failed connection, any other exception) or the response's
  status is outside 200..299, the value is the failure record: \<open>success\<close> false and
  a message that is not empty.
\<close>

theorem generate_transport_failures:
  "(\<exists>v. generate post api_url params = Inr v)
   \<and> ((\<exists>e. post (api_url @ ''/generate'') params = Inl e)
        \<or> (\<exists>r. post (api_url @ ''/generate'') params = Inr r
                 \<and> (status_code r < 200 \<or> 300 \<le> status_code r))
       \<longrightarrow> (\<exists>msg. msg \<noteq> [] \<and> generate post api_url params
                   = Inr (JObject [(''success'', JBool False), (''message'', JString msg)])))"
proof (intro conjI impI)
  show "\<exists>v. generate post api_url params = Inr v"
    by (auto simp: generate_def generate_try_def split: sum.splits request_exception.splits)
next
  assume "(\<exists>e. post (api_url @ ''/generate'') params = Inl e)
        \<or> (\<exists>r. post (api_url @ ''/generate'') params = Inr r
                 \<and> (status_code r < 200 \<or> 300 \<le> status_code r))"
  then show "\<exists>msg. msg \<noteq> [] \<and> generate post api_url params
                   = Inr (JObject [(''success'', JBool False), (''message'', JString msg)])"
    by (cases "api_url = []")
       (auto simp: generate_def generate_try_def failure_def split: request_exception.splits)
qed


theorem generate_transport_failures_witness:
  "generate (\<lambda>u b. Inl (Timeout ''read timed out'')) ''http://x'' (JObject [])
     = Inr (JObject [(''success'', JBool False),
                     (''message'', JString (''Zeit'' @ [CHR 0xFC] @ ''berschreitung bei der Generierung''))])
   \<and> generate (\<lambda>u b. Inr \<lparr>status_code = 503, json_result = Inl ''no json''\<rparr>) ''http://x'' (JObject [])
     = Inr (JObject [(''success'', JBool False), (''message'', JString ''Server-Fehler: 503'')])"
proof -
  have a: "generate (\<lambda>u b. Inl (Timeout ''read timed out'')) ''http://x'' (JObject [])
     = Inr (JObject [(''success'', JBool False),
                     (''message'', JString (''Zeit'' @ [CHR 0xFC] @ ''berschreitung bei der Generierung''))])"
    by (simp add: generate_def generate_try_def failure_def)
  have b: "generate (\<lambda>u b. Inr \<lparr>status_code = 503, json_result = Inl ''no json''\<rparr>) ''http://x'' (JObject [])
     = Inr (JObject [(''success'', JBool False), (''message'', JString ''Server-Fehler: 503'')])"
    by (simp add: generate_def generate_try_def failure_def digits_def str_nat.simps)
  from generate_transport_failures
    [of "\<lambda>u b. Inl (Timeout ''read timed out'')" "''http://x''" "JObject []"]
  show ?thesis using a b by simp
qed

section \<open>The value collection by kind\<close>

text \<open>
  C5, as the code has it: the emitted line is the rendering of a rule that the
  parameter's kind and name determine.  A checkbox reads the checked state, false for an
  absent control; a slider or number field parses the value as a float, 0 for an absent
  control or an empty value; an image awaits the base64 encoding of the file input; every
  other kind reads the text value as it is, blanks included, the empty text for an absent
  control.
\<close>

theorem collection_rule_by_kind:
  "param_collection_line p = render_stmt (collection_rule p)
   \<and> fst (collection_rule p) = name p
   \<and> eval_expr page (snd (collection_rule p)) =
       (if param_type p = CHECKBOX
        then JsBool (case page (name p) of None \<Rightarrow> False | Some c \<Rightarrow> control_checked c)
        else if param_type p = IMAGE then JsImageBase64 (name p @ ''_input'')
        else if param_type p = SLIDER \<or> param_type p = NUMBER
        then (case page (name p) of
                None \<Rightarrow> JsNumber 0
              | Some c \<Rightarrow> if control_value c = [] then JsNumber 0
                          else JsParsedFloat (control_value c))
        else JsText (case page (name p) of None \<Rightarrow> [] | Some c \<Rightarrow> control_value c))"
  by (simp add: param_collection_line_def render_stmt_def collection_rule_def split: option.splits)

theorem collection_rule_by_kind_witness:
  "eval_expr sample_page (snd (collection_rule (new_parameter ''tiling'' CHECKBOX ''Tiling'')))
     = JsBool False
   \<and> eval_expr sample_page (snd (collection_rule (new_parameter ''width'' SLIDER ''Breite'')))
     = JsNumber 0"
  using collection_rule_by_kind [of "new_parameter ''tiling'' CHECKBOX ''Tiling''" sample_page]
    collection_rule_by_kind [of "new_parameter ''width'' SLIDER ''Breite''" sample_page]
  by (simp add: new_parameter_def sample_page_def)

text \<open>
  C5 as stated has the text value trimmed: the value \<open>'' a cat ''\<close> of a text field
  is collected with its blanks.
\<close>

theorem text_value_not_trimmed:
  "eval_expr sample_page (snd (collection_rule (new_parameter ''prompt'' TEXT ''Prompt'')))
     = JsText '' a cat ''
   \<and> eval_expr sample_page (snd (collection_rule (new_parameter ''prompt'' TEXT ''Prompt'')))
     \<noteq> JsText ''a cat''"
  by (simp add: collection_rule_def new_parameter_def sample_page_def)

section \<open>Evaluation on given text\<close>

lemmas pattern_defs = spaces_def quote_def quoted_label_def equals_sign_def gradio_textbox_def
  gradio_slider_def gradio_image_def width_var_def height_var_def steps_var_def cfg_var_def
  strength_var_def widget_text_def widget_slider_def

lemmas detector_defs = detect_parameters_def detect_standard_image_params_def
  optional_entry_def keyword_def detect_gradio_params_def detect_widget_params_def
  label_param_def slider_param_def int_value_def py_int_def digit_value_def py_float_def
  match_group_def digits_def py_whitespace_def

lemmas regex_eval = re_search_def re_finditer_def finditer_from.simps no_flags_def
  IGNORECASE_def MULTILINE_def adv_def at_bol_def at_eol_def py_lower_char_def add_32_def

lemma detect_parameters_empty: "detect_parameters [] = Inr get_default_image_params"
  by (simp add: detector_defs pattern_defs regex_eval)

lemma detect_outputs_empty: "detect_outputs [] = [image_output]"
  by (simp add: detect_outputs_def keyword_def regex_eval)

lemma default_names:
  "map name get_default_image_params = [''prompt'', ''negative_prompt'', ''width'', ''height'', ''steps'']"
  by (simp add: get_default_image_params_def prompt_param_def negative_prompt_param_def
      size_param_def steps_param_def new_parameter_def)

lemmas title_eval = ascii_title_def sub_32_def add_32_def py_replace.simps

lemmas metadata_eval = h1_title_def prose_def source_text_def h1_line_def heading_line_def
  re_sub_def sub_from.simps py_strip_def py_strip_chars_def py_whitespace_def match_group_def

lemmas sanitize_eval = sanitize_name_def re_sub_def sub_from.simps non_name_char_def
  underscores_def name_chars_def py_strip_chars_def py_lower_def

lemma model_type_empty: "detect_model_type [] = ''unknown''"
  by (simp add: py_in_def py_lower_def detect_model_type_def flux_def sdxl_def controlnet_def
      stable_diffusion_def regex_eval)

lemma frameworks_empty:
  "py_in ''gradio'' (py_lower []) = False" "py_in ''import gr'' [] = False"
  "py_in ''flask'' (py_lower []) = False" "py_in ''fastapi'' (py_lower []) = False"
  by (simp_all add: py_in_def py_lower_def)

section \<open>The parameters of an analysis\<close>

lemma sequence_set:
  "sequence xs = Inr ps \<Longrightarrow> p \<in> set ps \<Longrightarrow> \<exists>q. Inr q \<in> set xs \<and> p \<in> set q"
proof (induction xs arbitrary: ps)
  case Nil
  then show ?case by simp
next
  case (Cons x xs)
  from Cons.prems(1) obtain q r where x: "x = Inr q" and r: "sequence xs = Inr r" and ps: "ps = q @ r"
    by (auto split: sum.splits)
  from Cons.prems(2) ps have "p \<in> set q \<or> p \<in> set r" by simp
  then show ?case
  proof
    assume "p \<in> set q"
    with x show ?thesis by auto
  next
    assume "p \<in> set r"
    from Cons.IH [OF r this] show ?thesis by auto
  qed
qed

lemma sequence_all:
  assumes "sequence xs = Inr ps" and "\<And>q p. Inr q \<in> set xs \<Longrightarrow> p \<in> set q \<Longrightarrow> P p"
    and "p \<in> set ps"
  shows "P p"
  using sequence_set [OF assms(1) assms(3)] assms(2) by blast

lemma optional_entry_made:
  "optional_entry pat ws conv fallback mk code = Inr q \<Longrightarrow> p \<in> set q \<Longrightarrow> \<exists>d. p = mk d"
  by (auto simp: optional_entry_def split: option.splits sum.splits if_splits)

lemma standard_kinds:
  assumes "detect_standard_image_params code = Inr ps" and "p \<in> set ps"
  shows "gui_kind (param_type p)"
proof (rule sequence_all [OF assms(1) [unfolded detect_standard_image_params_def] _ assms(2)])
  fix q p
  assume "Inr q \<in> set
     [Inr (if keyword [''prompt''] code then [prompt_param] else []),
      Inr (if keyword [''negative_prompt''] code then [negative_prompt_param] else []),
      optional_entry width_var [''width''] int_value (PyInt 512)
        (\<lambda>d. size_param ''width'' ''Breite'' d ''Bildbreite in Pixeln'') code,
      optional_entry height_var [''height''] int_value (PyInt 512)
        (\<lambda>d. size_param ''height'' (''H'' @ [CHR 0xF6] @ ''he'') d
                (''Bildh'' @ [CHR 0xF6] @ ''he in Pixeln'')) code,
      optional_entry steps_var [''steps'', ''inference''] int_value (PyInt 50)
        (\<lambda>d. steps_param d ''Anzahl der Inferenz-Schritte'') code,
      optional_entry cfg_var [''cfg'', ''guidance''] py_float (PyFloat ''7.5'') cfg_param code,
      Inr (if keyword [''seed''] code then [seed_param] else []),
      optional_entry strength_var [''img2img'', ''strength''] py_float (PyFloat ''0.75'')
        strength_param code,
      Inr (if keyword [''img2img'', ''init_image'', ''input_image''] code
           then [input_image_param] else [])]" and "p \<in> set q"
  then show "gui_kind (param_type p)"
    by (auto simp: gui_kind_def prompt_param_def negative_prompt_param_def size_param_def
        steps_param_def cfg_param_def seed_param_def strength_param_def input_image_param_def
        new_parameter_def dest!: sym [of "Inr q"] optional_entry_made split: if_splits)
qed


lemma label_param_kind:
  "label_param t g = Inr q \<Longrightarrow> p \<in> set q \<Longrightarrow> param_type p = t \<and> name p = sanitize_name (label p)"
  by (auto simp: label_param_def new_parameter_def)

lemma slider_param_kind:
  "slider_param g = Inr q \<Longrightarrow> p \<in> set q \<Longrightarrow> param_type p = SLIDER \<and> name p = sanitize_name (label p)"
  by (auto simp: slider_param_def new_parameter_def split: sum.splits)

lemma gradio_kinds:
  assumes "detect_gradio_params code = Inr ps" and "p \<in> set ps"
  shows "gui_kind (param_type p) \<and> name p = sanitize_name (label p)"
proof -
  obtain q where q: "Inr q \<in> set (map (label_param TEXT) (re_finditer no_flags gradio_textbox code)
      @ map slider_param (re_finditer no_flags gradio_slider code)
      @ map (label_param IMAGE) (re_finditer no_flags gradio_image code))" and p: "p \<in> set q"
    using sequence_set [OF assms(1) [unfolded detect_gradio_params_def] assms(2)] by blast
  from q consider g where "label_param TEXT g = Inr q" | g where "slider_param g = Inr q"
    | g where "label_param IMAGE g = Inr q"
    by (auto dest: sym)
  then show ?thesis
    using p by cases (auto simp: gui_kind_def dest: label_param_kind slider_param_kind)
qed

lemma widget_kinds:
  assumes "detect_widget_params code = Inr ps" and "p \<in> set ps"
  shows "gui_kind (param_type p) \<and> name p = sanitize_name (label p)"
proof -
  obtain q where q: "Inr q \<in> set (map (label_param TEXT) (re_finditer no_flags widget_text code)
      @ map slider_param (re_finditer no_flags widget_slider code))" and p: "p \<in> set q"
    using sequence_set [OF assms(1) [unfolded detect_widget_params_def] assms(2)] by blast
  from q consider g where "label_param TEXT g = Inr q" | g where "slider_param g = Inr q"
    by (auto dest: sym)
  then show ?thesis
    using p by cases (auto simp: gui_kind_def dest: label_param_kind slider_param_kind)
qed

lemma default_kinds: "p \<in> set get_default_image_params \<Longrightarrow> gui_kind (param_type p)"
  by (auto simp: get_default_image_params_def gui_kind_def prompt_param_def
      negative_prompt_param_def size_param_def steps_param_def new_parameter_def)

lemma add_new_set: "set (fst (add_new ps st)) \<subseteq> set (fst st) \<union> set ps"
  by (induction ps st rule: add_new.induct) auto

lemma detect_parameters_from:
  assumes "detect_parameters code = Inr ps" and "p \<in> set ps"
  shows "p \<in> set get_default_image_params
     \<or> (\<exists>qs. detect_standard_image_params code = Inr qs \<and> p \<in> set qs)
     \<or> (\<exists>qs. detect_gradio_params code = Inr qs \<and> p \<in> set qs)
     \<or> (\<exists>qs. detect_widget_params code = Inr qs \<and> p \<in> set qs)"
proof -
  from assms(1) obtain sp gp wp where
    sp: "detect_standard_image_params code = Inr sp" and
    gp: "detect_gradio_params code = Inr gp" and
    wp: "detect_widget_params code = Inr wp" and
    ps: "ps = (if fst (add_new wp (add_new gp (add_new sp ([], {})))) = []
               then get_default_image_params
               else fst (add_new wp (add_new gp (add_new sp ([], {})))))"
    by (auto simp: detect_parameters_def Let_def split: sum.splits)
  have "set (fst (add_new wp (add_new gp (add_new sp ([], {}))))) \<subseteq> set sp \<union> set gp \<union> set wp"
    using add_new_set [of wp "add_new gp (add_new sp ([], {}))"]
      add_new_set [of gp "add_new sp ([], {})"] add_new_set [of sp "([], {})"]
    by auto
  with assms(2) ps sp gp wp show ?thesis
    by (auto split: if_splits)
qed

lemma analysis_of_parameters:
  "detect_parameters (all_code nb) = Inr ps \<Longrightarrow>
   \<exists>a. analyze_notebook tc nb filename = Inr a \<and> parameters a = ps"
  by (simp add: analyze_notebook_def Let_def case_prod_beta)

lemma size_parameters:
  "detect_parameters (all_code size_notebook) =
     Inr [size_param ''width'' ''Breite'' (PyInt 768) ''Bildbreite in Pixeln'',
          size_param ''height'' (''H'' @ [CHR 0xF6] @ ''he'') (PyInt 768)
            (''Bildh'' @ [CHR 0xF6] @ ''he in Pixeln'')]"
proof -
  have "all_code size_notebook =
      ''width = 768'' @ [CHR 0x0A] @ ''height = 512'' @ [CHR 0x0A] @ ''f(width, height)'' @ [CHR 0x0A]"
    by (simp add: all_code_def code_cells_def cells_of_def size_notebook_def source_text_def)
  then show ?thesis
    by (simp add: detector_defs pattern_defs regex_eval size_param_def new_parameter_def)
qed

text \<open>
  C10: every parameter of a returned analysis has one of the five kinds textarea, text,
  number, slider, image; no detector and no fallback constructs a checkbox, dropdown,
  file or color parameter.
\<close>

theorem analysis_parameter_kinds:
  assumes "analyze_notebook tc nb filename = Inr a" and "p \<in> set (parameters a)"
  shows "param_type p \<in> {TEXTAREA, TEXT, NUMBER, SLIDER, IMAGE}"
proof -
  from assms(1) have "detect_parameters (all_code nb) = Inr (parameters a)"
    by (auto simp: analyze_notebook_def Let_def split: prod.splits sum.splits)
  from detect_parameters_from [OF this assms(2)] have "gui_kind (param_type p)"
    using default_kinds standard_kinds gradio_kinds widget_kinds by blast
  then show ?thesis by (simp add: gui_kind_def)
qed

theorem analysis_parameter_kinds_witness:
  "param_type (size_param ''height'' (''H'' @ [CHR 0xF6] @ ''he'') (PyInt 768)
      (''Bildh'' @ [CHR 0xF6] @ ''he in Pixeln'')) \<in> {TEXTAREA, TEXT, NUMBER, SLIDER, IMAGE}
   \<and> map_sum id (\<lambda>a. length (parameters a))
        (analyze_notebook ascii_title size_notebook ''sizes.ipynb'') = Inr 2"
proof -
  obtain a where a: "analyze_notebook ascii_title size_notebook ''sizes.ipynb'' = Inr a"
    and ps: "parameters a = [size_param ''width'' ''Breite'' (PyInt 768) ''Bildbreite in Pixeln'',
          size_param ''height'' (''H'' @ [CHR 0xF6] @ ''he'') (PyInt 768)
            (''Bildh'' @ [CHR 0xF6] @ ''he in Pixeln'')]"
    using analysis_of_parameters [OF size_parameters] by blast
  from analysis_parameter_kinds [OF a, of "size_param ''height'' (''H'' @ [CHR 0xF6] @ ''he'') (PyInt 768)
      (''Bildh'' @ [CHR 0xF6] @ ''he in Pixeln'')"] ps a
  show ?thesis by simp
qed

section \<open>Notebooks without code cells\<close>

text \<open>
  C1: a notebook none of whose cells is a code cell, the empty one included, is analysed
  without error; its parameters are the fallback set prompt, negative_prompt, width,
  height, steps in this order, and its only output is the image output.
\<close>

theorem no_code_cells_fallback:
  assumes "\<forall>c \<in> set (cells_of nb). cell_type c \<noteq> Some ''code''"
  shows "\<exists>a. analyze_notebook tc nb filename = Inr a
           \<and> parameters a = get_default_image_params
           \<and> map name (parameters a) = [''prompt'', ''negative_prompt'', ''width'', ''height'', ''steps'']
           \<and> outputs a = [image_output]
           \<and> map output_type (outputs a) = [OUT_IMAGE]"
proof -
  from assms have "code_cells nb = []"
    by (auto simp: code_cells_def filter_empty_conv)
  then have "all_code nb = []" by (simp add: all_code_def)
  then show ?thesis
    by (simp add: analyze_notebook_def Let_def detect_parameters_empty detect_outputs_empty
        default_names image_output_def split: prod.splits)
qed

theorem no_code_cells_fallback_witness:
  "\<exists>a. analyze_notebook ascii_title heading_only_notebook ''demo.ipynb'' = Inr a
       \<and> map name (parameters a) = [''prompt'', ''negative_prompt'', ''width'', ''height'', ''steps'']
       \<and> map output_type (outputs a) = [OUT_IMAGE]"
proof -
  have "\<forall>c \<in> set (cells_of heading_only_notebook). cell_type c \<noteq> Some ''code''"
    by (simp add: heading_only_notebook_def cells_of_def)
  from no_code_cells_fallback [OF this, of ascii_title "''demo.ipynb''"]
  show ?thesis by (elim exE conjE) (intro exI conjI, assumption+)
qed

section \<open>A notebook without a \<open>cells\<close> entry\<close>

text \<open>
  C3, as the code has it: \<open>notebook.get('cells', [])\<close> reads a missing entry as the
  empty list, so that the notebook is analysed as the empty notebook is, with the fallback
  parameters and the default output; no error is raised.
\<close>

theorem missing_cells_as_empty:
  "analyze_notebook tc \<lparr>cells = None\<rparr> filename = analyze_notebook tc \<lparr>cells = Some []\<rparr> filename
   \<and> (\<exists>a. analyze_notebook tc \<lparr>cells = None\<rparr> filename = Inr a
          \<and> parameters a = get_default_image_params
          \<and> outputs a = [image_output]
          \<and> raw_cells a = [])"
  by (simp add: analyze_notebook_def Let_def all_code_def code_cells_def markdown_cells_def
      cells_of_def detect_parameters_empty detect_outputs_empty split: prod.splits)

theorem missing_cells_as_empty_witness:
  "analyze_notebook ascii_title \<lparr>cells = None\<rparr> ''x.ipynb''
     = analyze_notebook ascii_title \<lparr>cells = Some []\<rparr> ''x.ipynb''"
  using missing_cells_as_empty [of ascii_title "''x.ipynb''"] by simp

text \<open>
  C3 as stated has the analysis fail: for the notebook without \<open>cells\<close>, named
  \<open>notebook.ipynb\<close>, it returns the default analysis.
\<close>

theorem missing_cells_not_an_error:
  "analyze_notebook ascii_title \<lparr>cells = None\<rparr> ''notebook.ipynb'' =
     Inr \<lparr>title = ''Notebook'', analysis_description = [],
          parameters = get_default_image_params, outputs = [image_output],
          has_gradio = False, has_flask = False, has_fastapi = False,
          model_type = ''unknown'', raw_cells = []\<rparr>"
proof -
  have m: "extract_metadata ascii_title [] ''notebook.ipynb'' = (''Notebook'', [])"
    by (simp add: extract_metadata_def ascii_title_def sub_32_def add_32_def py_replace.simps)
  have c: "all_code \<lparr>cells = None\<rparr> = []" "markdown_cells \<lparr>cells = None\<rparr> = []"
    "cells_of \<lparr>cells = None\<rparr> = []"
    by (simp_all add: all_code_def code_cells_def markdown_cells_def cells_of_def)
  show ?thesis
    unfolding analyze_notebook_def c Let_def m
    by (simp add: detect_parameters_empty detect_outputs_empty model_type_empty frameworks_empty)
qed

section \<open>The title\<close>

lemma scanned_Cons:
  "scanned (c # cs) = (if prose c = [] then c # scanned cs else [c])"
  by (simp add: scanned_def)

lemma last_heading_Cons:
  "last_heading (c # cs) = (case last_heading cs of Some h \<Rightarrow> Some h | None \<Rightarrow> h1_title c)"
  by (cases "h1_title c"; cases "rev (List.map_filter h1_title cs)")
     (simp_all add: last_heading_def)

lemma scan_cells_title:
  "fst (scan_cells cs ttl []) = (case last_heading (scanned cs) of Some h \<Rightarrow> h | None \<Rightarrow> ttl)"
proof (induction cs arbitrary: ttl)
  case Nil
  show ?case by (simp add: scanned_def last_heading_def)
next
  case (Cons c cs)
  show ?case
  proof (cases "prose c = []")
    case True
    then show ?thesis
      by (simp add: Cons.IH scanned_Cons last_heading_Cons split: option.splits)
  next
    case False
    then show ?thesis
      by (simp add: scanned_Cons last_heading_def split: option.splits)
  qed
qed

lemma first_cell: "h1_title \<lparr>cell_type = Some ''markdown'', source = Some (SourceLines [''# First''])\<rparr> = Some ''First''"
  "prose \<lparr>cell_type = Some ''markdown'', source = Some (SourceLines [''# First''])\<rparr> = []"
  by (simp_all add: metadata_eval regex_eval)

lemma second_cell: "h1_title \<lparr>cell_type = Some ''markdown'', source = Some (SourceText ''# Second'')\<rparr> = Some ''Second''"
  "prose \<lparr>cell_type = Some ''markdown'', source = Some (SourceText ''# Second'')\<rparr> = []"
  by (simp_all add: metadata_eval regex_eval)

lemma heading_only_analysis:
  "analyze_notebook ascii_title heading_only_notebook ''demo.ipynb'' =
     Inr \<lparr>title = ''Second'', analysis_description = [],
          parameters = get_default_image_params, outputs = [image_output],
          has_gradio = False, has_flask = False, has_fastapi = False,
          model_type = ''unknown'', raw_cells = cells_of heading_only_notebook\<rparr>"
proof -
  have c: "all_code heading_only_notebook = []"
    by (simp add: all_code_def code_cells_def cells_of_def heading_only_notebook_def)
  have m: "extract_metadata ascii_title (markdown_cells heading_only_notebook) ''demo.ipynb''
      = (''Second'', [])"
    by (simp add: markdown_cells_def cells_of_def heading_only_notebook_def extract_metadata_def title_eval
        first_cell second_cell)
  show ?thesis
    unfolding analyze_notebook_def c Let_def m
    by (simp add: detect_parameters_empty detect_outputs_empty model_type_empty frameworks_empty)
qed

text \<open>
  C4, as the code has it: the title is the first-level heading of the last cell that has
  one among the markdown cells that the loop reads, which are the cells up to and with the
  first one that has text besides heading lines; without such a heading it is the
  normalised file name.  A later cell's heading replaces an earlier one.
\<close>

theorem title_is_last_scanned_heading:
  assumes "analyze_notebook tc nb filename = Inr a"
  shows "title a =
     (case last_heading (scanned (markdown_cells nb)) of
        Some h \<Rightarrow> h
      | None \<Rightarrow> tc (py_replace ''-'' '' '' (py_replace ''_'' '' '' (py_replace ''.ipynb'' [] filename))))"
proof -
  from assms have "title a = fst (extract_metadata tc (markdown_cells nb) filename)"
    by (auto simp: analyze_notebook_def Let_def case_prod_beta split: sum.splits)
  then show ?thesis by (simp add: extract_metadata_def scan_cells_title)
qed

theorem title_is_last_scanned_heading_witness:
  "last_heading (scanned (markdown_cells heading_only_notebook)) = Some ''Second''"
proof -
  have "last_heading (scanned (markdown_cells heading_only_notebook)) \<noteq> None"
    by (simp add: markdown_cells_def cells_of_def heading_only_notebook_def scanned_def
        last_heading_def first_cell second_cell)
  then show ?thesis
    using title_is_last_scanned_heading [OF heading_only_analysis] by auto
qed

text \<open>
  C4 as stated has the earliest heading win: of the two cells \<open># First\<close> and
  \<open># Second\<close> the second gives the title.
\<close>

theorem later_heading_overrides:
  "map_sum id title (analyze_notebook ascii_title heading_only_notebook ''demo.ipynb'')
     = Inr ''Second''"
  by (simp add: heading_only_analysis)

section \<open>Parameter names\<close>

text \<open>
  The names of a parameter list are distinct, each parameter is the first detection that
  has its name, and a name made from a label has only characters of \<open>[a-z0-9_]\<close>.
\<close>

lemma add_new_names:
  "snd st = name ` set (fst st) \<Longrightarrow> distinct (map name (fst st)) \<Longrightarrow>
   snd (add_new ps st) = name ` set (fst (add_new ps st)) \<and> distinct (map name (fst (add_new ps st)))"
  by (induction ps st rule: add_new.induct) auto

lemma add_new_append: "add_new (xs @ ys) st = add_new ys (add_new xs st)"
  by (induction xs st rule: add_new.induct) auto

lemma add_new_first:
  "found = name ` set params \<Longrightarrow> q \<in> set (fst (add_new ps (params, found))) \<Longrightarrow>
   q \<in> set params \<or> (name q \<notin> found \<and> find (\<lambda>p. name p = name q) ps = Some q)"
proof (induction ps arbitrary: params found)
  case Nil
  then show ?case by simp
next
  case (Cons p ps)
  show ?case
  proof (cases "name p \<in> found")
    case True
    with Cons.prems(2) have "q \<in> set (fst (add_new ps (params, found)))" by simp
    from Cons.IH [OF Cons.prems(1) this] True show ?thesis by auto
  next
    case False
    with Cons.prems(2) have "q \<in> set (fst (add_new ps (params @ [p], insert (name p) found)))"
      by simp
    moreover have "insert (name p) found = name ` set (params @ [p])"
      using Cons.prems(1) by auto
    ultimately have "q \<in> set (params @ [p])
        \<or> (name q \<notin> insert (name p) found \<and> find (\<lambda>p. name p = name q) ps = Some q)"
      using Cons.IH by blast
    with False show ?thesis by auto
  qed
qed

lemma default_names_distinct: "distinct (map name get_default_image_params)"
  by (simp add: default_names)

lemma detected_list:
  assumes "detect_parameters code = Inr ps"
  obtains sp gp wp where "detect_standard_image_params code = Inr sp"
    and "detect_gradio_params code = Inr gp" and "detect_widget_params code = Inr wp"
    and "ps = (if fst (add_new (sp @ gp @ wp) ([], {})) = [] then get_default_image_params
               else fst (add_new (sp @ gp @ wp) ([], {})))"
  using assms
  by (auto simp: detect_parameters_def Let_def add_new_append split: sum.splits)

lemma detect_parameters_distinct:
  assumes "detect_parameters code = Inr ps"
  shows "distinct (map name ps)"
proof -
  from assms obtain sp gp wp where
    ps: "ps = (if fst (add_new (sp @ gp @ wp) ([], {})) = [] then get_default_image_params
               else fst (add_new (sp @ gp @ wp) ([], {})))"
    by (rule detected_list)
  have "distinct (map name (fst (add_new (sp @ gp @ wp) ([], {}))))"
    using add_new_names [of "([], {})" "sp @ gp @ wp"] by simp
  with ps show ?thesis by (simp add: default_names_distinct)
qed

lemma first_detection_wins:
  assumes "detect_parameters code = Inr ps" and "detect_standard_image_params code = Inr sp"
    and "detect_gradio_params code = Inr gp" and "detect_widget_params code = Inr wp"
    and "q \<in> set ps"
  shows "q \<in> set get_default_image_params \<or> find (\<lambda>p. name p = name q) (sp @ gp @ wp) = Some q"
proof -
  from assms(1-4) have
    ps: "ps = (if fst (add_new (sp @ gp @ wp) ([], {})) = [] then get_default_image_params
               else fst (add_new (sp @ gp @ wp) ([], {})))"
    by (auto elim!: detected_list)
  show ?thesis
  proof (cases "fst (add_new (sp @ gp @ wp) ([], {})) = []")
    case True
    with ps assms(5) show ?thesis by simp
  next
    case False
    with ps assms(5) have "q \<in> set (fst (add_new (sp @ gp @ wp) ([], {})))" by simp
    from add_new_first [OF _ this] show ?thesis by simp
  qed
qed

lemma widget_names_clean:
  assumes "detect_gradio_params code = Inr ps \<or> detect_widget_params code = Inr ps"
    and "p \<in> set ps"
  shows "set (name p) \<subseteq> set name_chars"
proof -
  from assms have "name p = sanitize_name (label p)"
    using gradio_kinds widget_kinds by blast
  then show ?thesis by (simp add: sanitize_chars)
qed

lemma sanitize_marks: "sanitize_name ''!!!'' = []"
  by (simp add: sanitize_eval regex_eval)

lemma textbox_parameters:
  "detect_parameters (all_code textbox_notebook) = Inr [new_parameter [] TEXT ''!!!'']"
proof -
  have "all_code textbox_notebook = ''gr.Textbox(label='' @ [CHR 0x22] @ ''!!!'' @ [CHR 0x22] @ '')''"
    by (simp add: all_code_def code_cells_def cells_of_def textbox_notebook_def source_text_def)
  then show ?thesis
    by (simp add: detector_defs pattern_defs regex_eval sanitize_marks)
qed

text \<open>
  C2 at the label \<open>!!!\<close>: the sanitizer leaves nothing of it, and the text box becomes a
  parameter whose name is the empty text, which \<open>[a-z0-9_]+\<close> does not match.
\<close>

theorem textbox_label_gives_empty_name:
  "map_sum id (\<lambda>a. map name (parameters a))
     (analyze_notebook ascii_title textbox_notebook ''ui.ipynb'') = Inr [[]]"
proof -
  obtain a where "analyze_notebook ascii_title textbox_notebook ''ui.ipynb'' = Inr a"
    and "parameters a = [new_parameter [] TEXT ''!!!'']"
    using analysis_of_parameters [OF textbox_parameters] by blast
  then show ?thesis by (simp add: new_parameter_def)
qed

section \<open>Defaults read from assignments\<close>

text \<open>
  The default of the width parameter is the number of the leftmost text that the
  assignment pattern matches, whether or not the keyword occurs as well.
\<close>

lemma sequence_keeps: "sequence xs = Inr ps \<Longrightarrow> Inr q \<in> set xs \<Longrightarrow> set q \<subseteq> set ps"
  by (induction xs arbitrary: ps) (auto split: sum.splits)

lemma width_default_is_leftmost_assignment:
  assumes "re_search no_flags width_var code = Some m"
    and "detect_standard_image_params code = Inr ps"
  shows "size_param ''width'' ''Breite'' (PyInt (py_int (match_group m 1))) ''Bildbreite in Pixeln''
           \<in> set ps"
proof -
  have "optional_entry width_var [''width''] int_value (PyInt 512)
          (\<lambda>d. size_param ''width'' ''Breite'' d ''Bildbreite in Pixeln'') code
        = Inr [size_param ''width'' ''Breite'' (PyInt (py_int (match_group m 1))) ''Bildbreite in Pixeln'']"
    by (simp add: optional_entry_def assms(1) int_value_def)
  then have "Inr [size_param ''width'' ''Breite'' (PyInt (py_int (match_group m 1))) ''Bildbreite in Pixeln'']
      \<in> set [Inr (if keyword [''prompt''] code then [prompt_param] else []),
      Inr (if keyword [''negative_prompt''] code then [negative_prompt_param] else []),
      optional_entry width_var [''width''] int_value (PyInt 512)
        (\<lambda>d. size_param ''width'' ''Breite'' d ''Bildbreite in Pixeln'') code,
      optional_entry height_var [''height''] int_value (PyInt 512)
        (\<lambda>d. size_param ''height'' (''H'' @ [CHR 0xF6] @ ''he'') d
                (''Bildh'' @ [CHR 0xF6] @ ''he in Pixeln'')) code,
      optional_entry steps_var [''steps'', ''inference''] int_value (PyInt 50)
        (\<lambda>d. steps_param d ''Anzahl der Inferenz-Schritte'') code,
      optional_entry cfg_var [''cfg'', ''guidance''] py_float (PyFloat ''7.5'') cfg_param code,
      Inr (if keyword [''seed''] code then [seed_param] else []),
      optional_entry strength_var [''img2img'', ''strength''] py_float (PyFloat ''0.75'')
        strength_param code,
      Inr (if keyword [''img2img'', ''init_image'', ''input_image''] code
           then [input_image_param] else [])]"
    by simp
  from sequence_keeps [OF assms(2) [unfolded detect_standard_image_params_def] this]
  show ?thesis by simp
qed

text \<open>
  C6 at \<open>width = 768\<close> followed by \<open>height = 512\<close> and a use of both names:
  the pattern \<open>(?:height|h)\s*=\s*(\d+)\<close> first matches \<open>h = 768\<close> at the end of
  \<open>width = 768\<close>, so that the default of height is 768 and the assigned 512 is not
  read.
\<close>

theorem height_default_from_width_assignment:
  "map_sum id (\<lambda>a. map (\<lambda>p. (name p, default_value p)) (parameters a))
     (analyze_notebook ascii_title size_notebook ''sizes.ipynb'')
     = Inr [(''width'', PyInt 768), (''height'', PyInt 768)]"
proof -
  obtain a where "analyze_notebook ascii_title size_notebook ''sizes.ipynb'' = Inr a"
    and "parameters a = [size_param ''width'' ''Breite'' (PyInt 768) ''Bildbreite in Pixeln'',
          size_param ''height'' (''H'' @ [CHR 0xF6] @ ''he'') (PyInt 768)
            (''Bildh'' @ [CHR 0xF6] @ ''he in Pixeln'')]"
    using analysis_of_parameters [OF size_parameters] by blast
  then show ?thesis by (simp add: size_param_def new_parameter_def)
qed

end
